theory Spec2Isabelle
  imports Complex_Main "HOL-Library.Word"
begin

section \<open>LiveNote: the note service, the lock hook and the realtime hook\<close>

text \<open>
  The development embeds \<^verbatim>\<open>src/lib/note-service.ts\<close>, the lock hook
  \<^verbatim>\<open>useNoteLock\<close> and the subscription handler of \<^verbatim>\<open>useRealtimeNote\<close>.
  The Supabase tables are lists of rows, a store call is a function on the tables, a thrown
  \<^verbatim>\<open>Error\<close> is the left injection of a sum, and the clock and the identifiers the
  database generates are arguments.
\<close>

subsection \<open>Plain text and Tiptap documents\<close>

text \<open>
  A JavaScript string is a sequence of UTF-16 code units. Only the note's text is inspected
  character by character (\<^verbatim>\<open>trim\<close>, \<^verbatim>\<open>split\<close>); identifiers, names and
  passwords are only stored and compared and are kept as \<^typ>\<open>string\<close>.
\<close>

type_synonym jschar = "16 word"
type_synonym jsstring = "jschar list"

text \<open>
  \<^verbatim>\<open>TiptapNode\<close> of \<^verbatim>\<open>types/note.ts\<close>: \<^verbatim>\<open>type\<close>, the optional
  \<^verbatim>\<open>content\<close> and the optional \<^verbatim>\<open>text\<close>. The optional \<^verbatim>\<open>attrs\<close> and
  \<^verbatim>\<open>marks\<close> are neither written nor read by the two conversions and are left out.
  \<^verbatim>\<open>TiptapContent\<close> is \<^verbatim>\<open>{type: 'doc', content: TiptapNode[]}\<close>.
\<close>

datatype TiptapNode =
  TiptapNode (node_type: string) (node_content: "TiptapNode list option") (node_text: "jsstring option")

datatype TiptapContent = Doc (doc_content: "TiptapNode list")

text \<open>
  \<^verbatim>\<open>String.prototype.trim\<close> removes the code units of ECMAScript's WhiteSpace and
  LineTerminator productions from both ends: TAB, LF, VT, FF, CR, SP, NBSP, U+1680,
  U+2000 to U+200A, LS, PS, U+202F, U+205F, U+3000 and U+FEFF.
\<close>

definition isWhiteSpace :: "jschar \<Rightarrow> bool" where
  "isWhiteSpace c \<longleftrightarrow> c \<in> set [0x09, 0x0A, 0x0B, 0x0C, 0x0D, 0x20, 0xA0, 0x1680,
     0x2000, 0x2001, 0x2002, 0x2003, 0x2004, 0x2005, 0x2006, 0x2007, 0x2008, 0x2009, 0x200A,
     0x2028, 0x2029, 0x202F, 0x205F, 0x3000, 0xFEFF]"

definition trim :: "jsstring \<Rightarrow> jsstring" where
  "trim s = rev (dropWhile isWhiteSpace (rev (dropWhile isWhiteSpace s)))"

text \<open>
  \<^verbatim>\<open>s.split(sep)\<close> for a separator of one code unit, and \<^verbatim>\<open>xs.join(sep)\<close>.
  The split of the empty string is the list of one empty string; the join of the empty
  array is the empty string.
\<close>

fun split :: "'a \<Rightarrow> 'a list \<Rightarrow> 'a list list" where
  "split sep [] = [[]]"
| "split sep (c # cs) =
     (if c = sep then [] # split sep cs
      else (case split sep cs of
              [] \<Rightarrow> [[c]]
            | l # ls \<Rightarrow> (c # l) # ls))"

fun join :: "'a \<Rightarrow> 'a list list \<Rightarrow> 'a list" where
  "join sep [] = []"
| "join sep [l] = l"
| "join sep (l # ls) = l @ sep # join sep ls"

definition LF :: jschar where
  "LF = 0x0A"

definition textToTiptapJson :: "jsstring \<Rightarrow> TiptapContent" where
  "textToTiptapJson text =
     (if text = [] \<or> trim text = [] then Doc []
      else
        let paragraphs =
              map (\<lambda>line. TiptapNode ''paragraph''
                     (Some (if line \<noteq> [] then [TiptapNode ''text'' None (Some line)] else []))
                     None)
                (split LF text)
        in Doc paragraphs)"

text \<open>
  The argument is \<^verbatim>\<open>TiptapContent | null\<close>. For a value of the declared type the test
  \<^verbatim>\<open>!json.content\<close> is false (an array, empty or not, is truthy), and so is the test
  \<^verbatim>\<open>node.content\<close> for a paragraph whose array is present. \<^verbatim>\<open>child.text || ''\<close>
  is the text, or the empty string when the field is missing or empty.
\<close>

definition tiptapJsonToText :: "TiptapContent option \<Rightarrow> jsstring" where
  "tiptapJsonToText json =
     (case json of
        None \<Rightarrow> []
      | Some d \<Rightarrow>
          join LF
            (map (\<lambda>node.
                    if node_type node = ''paragraph'' \<and> node_content node \<noteq> None
                    then concat (map (\<lambda>child. case node_text child of None \<Rightarrow> [] | Some t \<Rightarrow> t)
                                   (the (node_content node)))
                    else [])
               (doc_content d)))"

subsection \<open>The store\<close>

text \<open>
  The tables \<^verbatim>\<open>notes\<close> and \<^verbatim>\<open>note_users\<close> of the migrations, with the columns
  of \<^verbatim>\<open>types/note.ts\<close>. A timestamp is a number of milliseconds since the epoch
  (what \<^verbatim>\<open>Date.now()\<close> and \<^verbatim>\<open>getTime()\<close> return). The primary keys, which the
  source calls \<^verbatim>\<open>id\<close> in both tables, are \<open>n_id\<close> and \<open>nu_id\<close> here.
\<close>

datatype UserRole = Host | Guest

datatype PermissionStatus = NoneStatus | Requested | Granted | Denied

record Note =
  n_id :: string
  note_code :: string
  title :: string
  content :: jsstring
  content_json :: "TiptapContent option"
  host_password :: string
  guest_password :: string
  is_locked :: bool
  locked_by :: "string option"
  created_at :: int
  last_modified :: int

record NoteUser =
  nu_id :: string
  note_id :: string
  user_id :: string
  username :: string
  role :: UserRole
  joined_at :: int
  can_edit :: bool
  permission_status :: PermissionStatus
  permission_requested_at :: "int option"

text \<open>
  What a store call reports in \<^verbatim>\<open>error\<close>: \<^verbatim>\<open>PGRST116\<close> when \<^verbatim>\<open>.single()\<close>
  does not find exactly one row, 23505 for a primary key or unique column that is taken,
  23503 for a \<^verbatim>\<open>note_id\<close> that references no note, and \<open>unavailable\<close> when the
  call does not reach the database.
\<close>

datatype db_error = PGRST116 | unique_violation | foreign_key_violation | unavailable

text \<open>
  The thrown errors, one constructor per message of the source. \<open>CooldownWait n\<close> is the
  message that asks to retry after \<open>n\<close> seconds; \<open>StoreError e\<close> is a message built from
  the store's \<^verbatim>\<open>error.message\<close>.
\<close>

datatype error =
    InvalidNoteId
  | InvalidUserId
  | InvalidTargetUserId
  | InvalidRequesterId
  | InvalidHostId
  | UserNotFound
  | TargetNotFound
  | HostOnly
  | HostPermissionFixed
  | HostAlreadyEditor
  | AlreadyCanEdit
  | CooldownWait int
  | NotRequested
  | GuestCannotLock
  | MaxAttemptsExceeded
  | StoreError db_error

datatype log_line = HostRegistrationFailed db_error | CleanupFailed db_error | PollingError db_error

text \<open>
  The state the functions act on: the two tables, the lines written with
  \<^verbatim>\<open>console.error\<close>, and \<open>faults\<close>, which says for each coming store call whether it
  fails to reach the database (no entry left: it does not fail). A call that fails
  changes no table. The table \<^verbatim>\<open>notes\<close> is the field \<open>notes_tbl\<close>.
\<close>

record world =
  notes_tbl :: "Note list"
  note_users :: "NoteUser list"
  faults :: "bool list"
  console :: "log_line list"

definition next_fault :: "world \<Rightarrow> bool \<times> world" where
  "next_fault w = (case faults w of [] \<Rightarrow> (False, w) | f # fs \<Rightarrow> (f, w\<lparr>faults := fs\<rparr>))"

definition single :: "'a list \<Rightarrow> db_error + 'a" where
  "single rows = (case rows of [r] \<Rightarrow> Inr r | _ \<Rightarrow> Inl PGRST116)"

text \<open>\<^verbatim>\<open>from('note_users').select('*') ... .single()\<close>\<close>

definition select_user_single :: "(NoteUser \<Rightarrow> bool) \<Rightarrow> world \<Rightarrow> (db_error + NoteUser) \<times> world" where
  "select_user_single P w =
     (case next_fault w of
        (True, w') \<Rightarrow> (Inl unavailable, w')
      | (False, w') \<Rightarrow> (single (filter P (note_users w')), w'))"

text \<open>
  \<^verbatim>\<open>from('note_users').update(...) ... .select().single()\<close>: the rows that match are
  updated and returned; when they are not exactly one the request fails and the update is
  rolled back.
\<close>

definition update_user_single ::
  "(NoteUser \<Rightarrow> bool) \<Rightarrow> (NoteUser \<Rightarrow> NoteUser) \<Rightarrow> world \<Rightarrow> (db_error + NoteUser) \<times> world" where
  "update_user_single P upd w =
     (case next_fault w of
        (True, w') \<Rightarrow> (Inl unavailable, w')
      | (False, w') \<Rightarrow>
          (case single (map upd (filter P (note_users w'))) of
             Inl e \<Rightarrow> (Inl e, w')
           | Inr r \<Rightarrow> (Inr r, w'\<lparr>note_users := map (\<lambda>x. if P x then upd x else x) (note_users w')\<rparr>)))"

text \<open>\<^verbatim>\<open>from('note_users').update(...)\<close> with filters only: every matching row is updated.\<close>

definition update_users ::
  "(NoteUser \<Rightarrow> bool) \<Rightarrow> (NoteUser \<Rightarrow> NoteUser) \<Rightarrow> world \<Rightarrow> db_error option \<times> world" where
  "update_users P upd w =
     (case next_fault w of
        (True, w') \<Rightarrow> (Some unavailable, w')
      | (False, w') \<Rightarrow>
          (None, w'\<lparr>note_users := map (\<lambda>x. if P x then upd x else x) (note_users w')\<rparr>))"

text \<open>
  \<^verbatim>\<open>from('note_users').insert(row)\<close>: \<^verbatim>\<open>id\<close> is the primary key and
  \<^verbatim>\<open>note_id\<close> references \<^verbatim>\<open>notes(id)\<close>. The table has no unique constraint on
  \<^verbatim>\<open>(note_id, user_id)\<close>.
\<close>

definition insert_user :: "NoteUser \<Rightarrow> world \<Rightarrow> (db_error + NoteUser) \<times> world" where
  "insert_user row w =
     (case next_fault w of
        (True, w') \<Rightarrow> (Inl unavailable, w')
      | (False, w') \<Rightarrow>
          if nu_id row \<in> set (map nu_id (note_users w')) then (Inl unique_violation, w')
          else if note_id row \<notin> set (map n_id (notes_tbl w')) then (Inl foreign_key_violation, w')
          else (Inr row, w'\<lparr>note_users := note_users w' @ [row]\<rparr>))"

text \<open>The same calls on \<^verbatim>\<open>notes\<close>; \<^verbatim>\<open>note_code\<close> is unique.\<close>

definition select_note_single :: "(Note \<Rightarrow> bool) \<Rightarrow> world \<Rightarrow> (db_error + Note) \<times> world" where
  "select_note_single P w =
     (case next_fault w of
        (True, w') \<Rightarrow> (Inl unavailable, w')
      | (False, w') \<Rightarrow> (single (filter P (notes_tbl w')), w'))"

definition update_note_single ::
  "(Note \<Rightarrow> bool) \<Rightarrow> (Note \<Rightarrow> Note) \<Rightarrow> world \<Rightarrow> (db_error + Note) \<times> world" where
  "update_note_single P upd w =
     (case next_fault w of
        (True, w') \<Rightarrow> (Inl unavailable, w')
      | (False, w') \<Rightarrow>
          (case single (map upd (filter P (notes_tbl w'))) of
             Inl e \<Rightarrow> (Inl e, w')
           | Inr r \<Rightarrow> (Inr r, w'\<lparr>notes_tbl := map (\<lambda>x. if P x then upd x else x) (notes_tbl w')\<rparr>)))"

definition insert_note :: "Note \<Rightarrow> world \<Rightarrow> (db_error + Note) \<times> world" where
  "insert_note row w =
     (case next_fault w of
        (True, w') \<Rightarrow> (Inl unavailable, w')
      | (False, w') \<Rightarrow>
          if n_id row \<in> set (map n_id (notes_tbl w')) \<or> note_code row \<in> set (map note_code (notes_tbl w'))
          then (Inl unique_violation, w')
          else (Inr row, w'\<lparr>notes_tbl := notes_tbl w' @ [row]\<rparr>))"

subsection \<open>The note service\<close>

text \<open>
  Every function takes the state last and returns its result with the new state. \<open>now\<close>
  is what the clock read gives (\<^verbatim>\<open>new Date()\<close>, \<^verbatim>\<open>Date.now()\<close>, or the
  database's \<^verbatim>\<open>now()\<close> for a column default); \<open>gen_id\<close> is the identifier the
  database generates for an inserted row.
\<close>

text \<open>
  \<^verbatim>\<open>joinNote(noteId, userId, username, role)\<close>. The first select's \<^verbatim>\<open>error\<close> is not
  read: whatever makes it return no row leads to the insert.
\<close>

definition joinNote ::
  "int \<Rightarrow> string \<Rightarrow> string \<Rightarrow> string \<Rightarrow> string \<Rightarrow> UserRole \<Rightarrow> world \<Rightarrow> (error + NoteUser) \<times> world" where
  "joinNote now gen_id noteId userId new_username new_role w =
     (if noteId = [] then (Inl InvalidNoteId, w)
      else if userId = [] then (Inl InvalidUserId, w)
      else
        case select_user_single (\<lambda>r. note_id r = noteId \<and> user_id r = userId) w of
          (Inr existing, w1) \<Rightarrow>
            (case update_user_single (\<lambda>r. nu_id r = nu_id existing)
                    (\<lambda>r. r\<lparr>username := new_username, role := new_role, joined_at := now\<rparr>) w1 of
               (Inl e, w2) \<Rightarrow> (Inl (StoreError e), w2)
             | (Inr data, w2) \<Rightarrow> (Inr data, w2))
        | (Inl _, w1) \<Rightarrow>
            (case insert_user
                    \<lparr>nu_id = gen_id, note_id = noteId, user_id = userId, username = new_username,
                     role = new_role, joined_at = now, can_edit = (new_role = Host),
                     permission_status = (if new_role = Host then Granted else NoneStatus),
                     permission_requested_at = None\<rparr> w1 of
               (Inl e, w2) \<Rightarrow> (Inl (StoreError e), w2)
             | (Inr data, w2) \<Rightarrow> (Inr data, w2)))"

text \<open>\<^verbatim>\<open>updateUserEditPermission(noteId, targetUserId, canEdit, requesterId)\<close>\<close>

definition updateUserEditPermission ::
  "string \<Rightarrow> string \<Rightarrow> bool \<Rightarrow> string \<Rightarrow> world \<Rightarrow> (error + NoteUser) \<times> world" where
  "updateUserEditPermission noteId targetUserId canEdit requesterId w =
     (if noteId = [] then (Inl InvalidNoteId, w)
      else if targetUserId = [] then (Inl InvalidTargetUserId, w)
      else if requesterId = [] then (Inl InvalidRequesterId, w)
      else
        case select_user_single
               (\<lambda>r. note_id r = noteId \<and> user_id r = requesterId \<and> role r = Host) w of
          (Inl _, w1) \<Rightarrow> (Inl HostOnly, w1)
        | (Inr requesterData, w1) \<Rightarrow>
            (case select_user_single (\<lambda>r. note_id r = noteId \<and> user_id r = targetUserId) w1 of
               (Inl _, w2) \<Rightarrow> (Inl TargetNotFound, w2)
             | (Inr targetData, w2) \<Rightarrow>
                 if role targetData = Host then (Inl HostPermissionFixed, w2)
                 else
                   (case update_user_single (\<lambda>r. note_id r = noteId \<and> user_id r = targetUserId)
                           (\<lambda>r. r\<lparr>can_edit := canEdit\<rparr>) w2 of
                      (Inl e, w3) \<Rightarrow> (Inl (StoreError e), w3)
                    | (Inr data, w3) \<Rightarrow> (Inr data, w3))))"

text \<open>
  \<^verbatim>\<open>requestEditPermission(noteId, userId)\<close>. \<open>now\<close> is the \<^verbatim>\<open>Date.now()\<close> of the
  cooldown check and \<open>stamp\<close> the \<^verbatim>\<open>new Date()\<close> written by the update.
  \<^verbatim>\<open>elapsedSeconds\<close> is a quotient of JavaScript numbers, taken here as a real number;
  on whole milliseconds the comparison with 30 and \<^verbatim>\<open>Math.ceil\<close> give the same
  result for both.
\<close>

definition COOLDOWN_SECONDS :: real where
  "COOLDOWN_SECONDS = 30"

definition requestEditPermission ::
  "int \<Rightarrow> int \<Rightarrow> string \<Rightarrow> string \<Rightarrow> world \<Rightarrow> (error + NoteUser) \<times> world" where
  "requestEditPermission now stamp noteId userId w =
     (if noteId = [] then (Inl InvalidNoteId, w)
      else if userId = [] then (Inl InvalidUserId, w)
      else
        case select_user_single (\<lambda>r. note_id r = noteId \<and> user_id r = userId) w of
          (Inl _, w1) \<Rightarrow> (Inl UserNotFound, w1)
        | (Inr userData, w1) \<Rightarrow>
            if role userData = Host then (Inl HostAlreadyEditor, w1)
            else if can_edit userData then (Inl AlreadyCanEdit, w1)
            else
              let cooldown =
                    (case permission_requested_at userData of
                       None \<Rightarrow> None
                     | Some lastRequestTime \<Rightarrow>
                         let elapsedSeconds = real_of_int (now - lastRequestTime) / 1000 in
                         if elapsedSeconds < COOLDOWN_SECONDS \<and> permission_status userData = Requested
                         then Some \<lceil>COOLDOWN_SECONDS - elapsedSeconds\<rceil>
                         else if elapsedSeconds < COOLDOWN_SECONDS \<and> permission_status userData = Denied
                         then Some \<lceil>COOLDOWN_SECONDS - elapsedSeconds\<rceil>
                         else None)
              in
                case cooldown of
                  Some remainingSeconds \<Rightarrow> (Inl (CooldownWait remainingSeconds), w1)
                | None \<Rightarrow>
                    (case update_user_single (\<lambda>r. note_id r = noteId \<and> user_id r = userId)
                            (\<lambda>r. r\<lparr>permission_status := Requested,
                                   permission_requested_at := Some stamp\<rparr>) w1 of
                       (Inl e, w2) \<Rightarrow> (Inl (StoreError e), w2)
                     | (Inr data, w2) \<Rightarrow> (Inr data, w2)))"

text \<open>\<^verbatim>\<open>respondToEditRequest(noteId, targetUserId, approved, hostUserId)\<close>\<close>

definition respondToEditRequest ::
  "string \<Rightarrow> string \<Rightarrow> bool \<Rightarrow> string \<Rightarrow> world \<Rightarrow> (error + NoteUser) \<times> world" where
  "respondToEditRequest noteId targetUserId approved hostUserId w =
     (if noteId = [] then (Inl InvalidNoteId, w)
      else if targetUserId = [] then (Inl InvalidTargetUserId, w)
      else if hostUserId = [] then (Inl InvalidHostId, w)
      else
        case select_user_single
               (\<lambda>r. note_id r = noteId \<and> user_id r = hostUserId \<and> role r = Host) w of
          (Inl _, w1) \<Rightarrow> (Inl HostOnly, w1)
        | (Inr hostData, w1) \<Rightarrow>
            (case select_user_single (\<lambda>r. note_id r = noteId \<and> user_id r = targetUserId) w1 of
               (Inl _, w2) \<Rightarrow> (Inl TargetNotFound, w2)
             | (Inr targetData, w2) \<Rightarrow>
                 if permission_status targetData \<noteq> Requested then (Inl NotRequested, w2)
                 else
                   let updateData =
                         (if approved
                          then (\<lambda>r. r\<lparr>can_edit := True, permission_status := Granted\<rparr>)
                          else (\<lambda>r. r\<lparr>permission_status := Denied\<rparr>))
                   in
                     (case update_user_single
                             (\<lambda>r. note_id r = noteId \<and> user_id r = targetUserId) updateData w2 of
                        (Inl e, w3) \<Rightarrow> (Inl (StoreError e), w3)
                      | (Inr data, w3) \<Rightarrow> (Inr data, w3))))"

text \<open>
  \<^verbatim>\<open>cleanupExpiredRequests(noteId)\<close> returns nothing and throws nothing: the store's
  error goes to \<^verbatim>\<open>console.error\<close>. A row whose timestamp is \<^verbatim>\<open>NULL\<close> does
  not satisfy \<^verbatim>\<open>.lt('permission_requested_at', expiryTime)\<close>.
\<close>

definition EXPIRY_HOURS :: int where
  "EXPIRY_HOURS = 24"

definition cleanupExpiredRequests :: "int \<Rightarrow> string \<Rightarrow> world \<Rightarrow> (error + unit) \<times> world" where
  "cleanupExpiredRequests now noteId w =
     (if noteId = [] then (Inr (), w)
      else
        let expiryTime = now - EXPIRY_HOURS * 60 * 60 * 1000 in
        case update_users
               (\<lambda>r. note_id r = noteId
                    \<and> permission_status r \<in> set [Requested, Denied]
                    \<and> (case permission_requested_at r of None \<Rightarrow> False | Some t \<Rightarrow> t < expiryTime))
               (\<lambda>r. r\<lparr>permission_status := NoneStatus, permission_requested_at := None\<rparr>) w of
          (Some e, w1) \<Rightarrow> (Inr (), w1\<lparr>console := console w1 @ [CleanupFailed e]\<rparr>)
        | (None, w1) \<Rightarrow> (Inr (), w1))"

text \<open>\<^verbatim>\<open>setNoteLock(noteId, isLocked, lockedBy)\<close>\<close>

definition setNoteLock ::
  "int \<Rightarrow> string \<Rightarrow> bool \<Rightarrow> string option \<Rightarrow> world \<Rightarrow> (error + Note) \<times> world" where
  "setNoteLock now noteId isLockedArg lockedByArg w =
     (if noteId = [] then (Inl InvalidNoteId, w)
      else
        case update_note_single (\<lambda>n. n_id n = noteId)
               (\<lambda>n. n\<lparr>is_locked := isLockedArg, locked_by := lockedByArg, last_modified := now\<rparr>) w of
          (Inl e, w1) \<Rightarrow> (Inl (StoreError e), w1)
        | (Inr data, w1) \<Rightarrow> (Inr data, w1))"

text \<open>
  \<^verbatim>\<open>createNote(title, hostPassword, guestPassword)\<close>. What the function draws at
  random or receives from the database is given in \<open>rnd\<close>: the successive results of
  \<^verbatim>\<open>generateNoteCode()\<close>, the \<^verbatim>\<open>id\<close> the database generates at each insert into
  \<^verbatim>\<open>notes\<close>, the \<^verbatim>\<open>crypto.randomUUID()\<close> of the host and the \<^verbatim>\<open>id\<close> of the
  host's row. The insert of the host's row names five columns; the others take the
  defaults of the migrations, which is \<^verbatim>\<open>'none'\<close> for \<^verbatim>\<open>permission_status\<close> and
  \<^verbatim>\<open>NULL\<close> for \<^verbatim>\<open>permission_requested_at\<close>. \<open>host_username\<close> is the UTF-8
  encoding of the Korean word for host that the source writes.
\<close>

record randomness =
  noteCodes :: "nat \<Rightarrow> string"
  noteIds :: "nat \<Rightarrow> string"
  participantId :: string
  hostRowId :: string

definition maxAttempts :: nat where
  "maxAttempts = 5"

definition host_username :: string where
  "host_username =
     [CHR 0xED, CHR 0x98, CHR 0xB8, CHR 0xEC, CHR 0x8A, CHR 0xA4, CHR 0xED, CHR 0x8A, CHR 0xB8]"

function createNote_loop ::
  "nat \<Rightarrow> int \<Rightarrow> randomness \<Rightarrow> string \<Rightarrow> string \<Rightarrow> string \<Rightarrow> world
     \<Rightarrow> (error + Note \<times> string) \<times> world" where
  "createNote_loop attempts now rnd new_title hostPassword guestPassword w =
     (if attempts < maxAttempts then
        (case insert_note
                \<lparr>n_id = noteIds rnd attempts, note_code = noteCodes rnd attempts,
                 title = new_title, content = [], content_json = None,
                 host_password = hostPassword, guest_password = guestPassword,
                 is_locked = False, locked_by = None, created_at = now, last_modified = now\<rparr> w of
           (Inr data, w1) \<Rightarrow>
             (case insert_user
                     \<lparr>nu_id = hostRowId rnd, note_id = n_id data, user_id = participantId rnd,
                      username = host_username, role = Host, joined_at = now, can_edit = True,
                      permission_status = NoneStatus, permission_requested_at = None\<rparr> w1 of
                (Inl userError, w2) \<Rightarrow>
                  (Inr (data, participantId rnd),
                   w2\<lparr>console := console w2 @ [HostRegistrationFailed userError]\<rparr>)
              | (Inr _, w2) \<Rightarrow> (Inr (data, participantId rnd), w2))
         | (Inl unique_violation, w1) \<Rightarrow>
             createNote_loop (attempts + 1) now rnd new_title hostPassword guestPassword w1
         | (Inl e, w1) \<Rightarrow> (Inl (StoreError e), w1))
      else (Inl MaxAttemptsExceeded, w))"
  by pat_completeness auto
termination
  by (relation "measure (\<lambda>(attempts, _). maxAttempts - attempts)") auto

definition createNote ::
  "int \<Rightarrow> randomness \<Rightarrow> string \<Rightarrow> string \<Rightarrow> string \<Rightarrow> world \<Rightarrow> (error + Note \<times> string) \<times> world" where
  "createNote now rnd new_title hostPassword guestPassword w =
     createNote_loop 0 now rnd new_title hostPassword guestPassword w"

subsection \<open>The lock hook\<close>

text \<open>
  \<^verbatim>\<open>useNoteLock\<close>: the hook's state \<^verbatim>\<open>isLocked\<close>, \<^verbatim>\<open>lockedBy\<close> and
  \<^verbatim>\<open>error\<close> is the client's copy of the note's lock columns, set from the props at
  mount and from the update events of the note afterwards. \<^verbatim>\<open>requestLock\<close> returns
  whether the lock was taken.
\<close>

record NoteLock =
  isLocked :: bool
  lockedBy :: "string option"
  lock_error :: "error option"

definition requestLock ::
  "int \<Rightarrow> string \<Rightarrow> string \<Rightarrow> UserRole \<Rightarrow> NoteLock \<Rightarrow> world \<Rightarrow> bool \<times> NoteLock \<times> world" where
  "requestLock now noteId userId userRole h w =
     (if userRole \<noteq> Host then (False, h\<lparr>lock_error := Some GuestCannotLock\<rparr>, w)
      else if isLocked h \<and> lockedBy h = Some userId then (True, h, w)
      else
        case setNoteLock now noteId True (Some userId) w of
          (Inr _, w1) \<Rightarrow>
            (True, h\<lparr>isLocked := True, lockedBy := Some userId, lock_error := None\<rparr>, w1)
        | (Inl lockError, w1) \<Rightarrow> (False, h\<lparr>lock_error := Some lockError\<rparr>, w1))"

subsection \<open>The realtime hook\<close>

text \<open>
  \<^verbatim>\<open>useRealtimeNote\<close>: the state and the refs of the hook. \<open>pollingTimer\<close> is the
  interval, in milliseconds, of the running \<^verbatim>\<open>setInterval\<close>, if any.
  \<^verbatim>\<open>lastContentJsonRef\<close> follows \<^verbatim>\<open>contentJson\<close> and is the same field here. The
  callback \<^verbatim>\<open>onContentChange\<close> belongs to the caller and is not modelled.
\<close>

datatype subscribe_status = SUBSCRIBED | CHANNEL_ERROR | TIMED_OUT | CLOSED

record RealtimeNote =
  contentJson :: "TiptapContent option"
  isConnected :: bool
  connection_error :: "subscribe_status option"
  reconnectAttempts :: nat
  pollingTimer :: "nat option"
  isLocalChange :: bool
  pendingSave :: bool

definition POLLING_INTERVAL :: nat where
  "POLLING_INTERVAL = 3000"

definition MAX_RECONNECT_ATTEMPTS :: nat where
  "MAX_RECONNECT_ATTEMPTS = 3"

text \<open>
  \<^verbatim>\<open>isContentJsonEqual\<close>: \<^verbatim>\<open>JSON.stringify\<close> of two documents is the same text
  when the documents are structurally equal.
\<close>

definition isContentJsonEqual :: "TiptapContent option \<Rightarrow> TiptapContent option \<Rightarrow> bool" where
  "isContentJsonEqual a b =
     (if a = b then True else if a = None \<or> b = None then False else the a = the b)"

definition startPolling :: "RealtimeNote \<Rightarrow> RealtimeNote" where
  "startPolling a = a\<lparr>pollingTimer := Some POLLING_INTERVAL\<rparr>"

definition stopPolling :: "RealtimeNote \<Rightarrow> RealtimeNote" where
  "stopPolling a = (if pollingTimer a \<noteq> None then a\<lparr>pollingTimer := None\<rparr> else a)"

text \<open>The callback given to \<^verbatim>\<open>subscribe\<close>, called with each status of the channel.\<close>

definition onSubscribeStatus :: "subscribe_status \<Rightarrow> RealtimeNote \<Rightarrow> RealtimeNote" where
  "onSubscribeStatus status a =
     (if status = SUBSCRIBED then
        stopPolling (a\<lparr>isConnected := True, connection_error := None, reconnectAttempts := 0\<rparr>)
      else if status = CHANNEL_ERROR \<or> status = TIMED_OUT then
        let a1 = a\<lparr>isConnected := False, connection_error := Some status\<rparr> in
        if reconnectAttempts a1 < MAX_RECONNECT_ATTEMPTS
        then a1\<lparr>reconnectAttempts := reconnectAttempts a1 + 1\<rparr>
        else startPolling a1
      else if status = CLOSED then a\<lparr>isConnected := False\<rparr>
      else a)"

text \<open>The statuses of a subscription, in the order the channel reports them.\<close>

definition onSubscribeStatuses :: "subscribe_status list \<Rightarrow> RealtimeNote \<Rightarrow> RealtimeNote" where
  "onSubscribeStatuses statuses a = fold onSubscribeStatus statuses a"

text \<open>\<^verbatim>\<open>fetchNoteContent\<close>, which the polling timer calls at each tick.\<close>

definition fetchNoteContent :: "string \<Rightarrow> RealtimeNote \<Rightarrow> world \<Rightarrow> RealtimeNote \<times> world" where
  "fetchNoteContent noteId a w =
     (case select_note_single (\<lambda>n. n_id n = noteId) w of
        (Inl fetchError, w1) \<Rightarrow> (a, w1\<lparr>console := console w1 @ [PollingError fetchError]\<rparr>)
      | (Inr data, w1) \<Rightarrow>
          (if \<not> isLocalChange a
           then
             let newContentJson = content_json data in
             if \<not> isContentJsonEqual newContentJson (contentJson a)
             then a\<lparr>contentJson := newContentJson\<rparr>
             else a
           else a,
           w1))"

text \<open>\<^verbatim>\<open>setContentJson\<close> (a local edit) and the handler of the note's update events.\<close>

definition setContentJson :: "TiptapContent \<Rightarrow> RealtimeNote \<Rightarrow> RealtimeNote" where
  "setContentJson newContentJson a =
     a\<lparr>isLocalChange := True, pendingSave := True, contentJson := Some newContentJson\<rparr>"

definition onNoteUpdate :: "TiptapContent option \<Rightarrow> RealtimeNote \<Rightarrow> RealtimeNote" where
  "onNoteUpdate newContentJson a =
     (let a1 = (if \<not> isLocalChange a \<and> \<not> isContentJsonEqual newContentJson (contentJson a)
                then a\<lparr>contentJson := newContentJson\<rparr> else a)
      in a1\<lparr>isLocalChange := False\<rparr>)"

subsection \<open>Vocabulary of the properties\<close>

text \<open>
  The record of a participant in a session, the table after one participant's record is
  changed, and the two conditions on \<^verbatim>\<open>note_users\<close> that the properties assume: the
  primary key is not repeated (the database enforces it), and a session holds at most one
  record per participant (no constraint enforces it; \<open>joinNote\<close> keeps it as long as
  its lookup reaches the database, see \<open>joinNote_keeps_one_row_per_participant\<close>).
\<close>

definition participant :: "world \<Rightarrow> string \<Rightarrow> string \<Rightarrow> NoteUser option" where
  "participant w noteId userId =
     find (\<lambda>r. note_id r = noteId \<and> user_id r = userId) (note_users w)"

definition amend_participant ::
  "string \<Rightarrow> string \<Rightarrow> (NoteUser \<Rightarrow> NoteUser) \<Rightarrow> NoteUser list \<Rightarrow> NoteUser list" where
  "amend_participant noteId userId f rows =
     map (\<lambda>r. if note_id r = noteId \<and> user_id r = userId then f r else r) rows"

definition primary_keys_distinct :: "world \<Rightarrow> bool" where
  "primary_keys_distinct w \<longleftrightarrow> distinct (map nu_id (note_users w))"

definition one_row_per_participant :: "world \<Rightarrow> bool" where
  "one_row_per_participant w \<longleftrightarrow> distinct (map (\<lambda>r. (note_id r, user_id r)) (note_users w))"

text \<open>An empty store, and a session with a host and a guest, for the examples.\<close>

definition empty_world :: world where
  "empty_world = \<lparr>notes_tbl = [], note_users = [], faults = [], console = []\<rparr>"

definition example_note :: Note where
  "example_note =
     \<lparr>n_id = ''n1'', note_code = ''ABCDEF'', title = ''minutes'', content = [], content_json = None,
      host_password = ''1111'', guest_password = ''2222'', is_locked = False, locked_by = None,
      created_at = 0, last_modified = 0\<rparr>"

definition example_host :: NoteUser where
  "example_host =
     \<lparr>nu_id = ''r1'', note_id = ''n1'', user_id = ''h'', username = ''kim'', role = Host,
      joined_at = 0, can_edit = True, permission_status = Granted, permission_requested_at = None\<rparr>"

definition example_guest :: NoteUser where
  "example_guest =
     \<lparr>nu_id = ''r2'', note_id = ''n1'', user_id = ''g'', username = ''lee'', role = Guest,
      joined_at = 0, can_edit = False, permission_status = NoneStatus, permission_requested_at = None\<rparr>"

definition example_world :: world where
  "example_world =
     \<lparr>notes_tbl = [example_note], note_users = [example_host, example_guest], faults = [], console = []\<rparr>"

text \<open>The same session after the guest has asked for the edit permission at time 0.\<close>

definition pending_guest :: NoteUser where
  "pending_guest = example_guest\<lparr>permission_status := Requested, permission_requested_at := Some 0\<rparr>"

definition pending_world :: world where
  "pending_world = example_world\<lparr>note_users := [example_host, pending_guest]\<rparr>"

text \<open>
  The example session with the lock held by a participant \<open>a\<close>, and the state of the
  realtime hook right after mount.
\<close>

definition locked_note :: Note where
  "locked_note = example_note\<lparr>is_locked := True, locked_by := Some ''a''\<rparr>"

definition locked_world :: world where
  "locked_world = example_world\<lparr>notes_tbl := [locked_note]\<rparr>"

definition mounted :: RealtimeNote where
  "mounted =
     \<lparr>contentJson = None, isConnected = False, connection_error = None, reconnectAttempts = 0,
      pollingTimer = None, isLocalChange = False, pendingSave = False\<rparr>"

subsection \<open>Operations and the states they reach\<close>

text \<open>
  A call of one of the six functions that write \<^verbatim>\<open>note_users\<close>, with its arguments,
  and the state it leaves, whether it returns or throws.
\<close>

datatype operation =
    CreateNote int randomness string string string
  | JoinNote int string string string string UserRole
  | UpdateUserEditPermission string string bool string
  | RespondToEditRequest string string bool string
  | RequestEditPermission int int string string
  | CleanupExpiredRequests int string

fun perform :: "operation \<Rightarrow> world \<Rightarrow> world" where
  "perform (CreateNote now rnd new_title hostPassword guestPassword) w =
     snd (createNote now rnd new_title hostPassword guestPassword w)"
| "perform (JoinNote now gen_id noteId userId new_username new_role) w =
     snd (joinNote now gen_id noteId userId new_username new_role w)"
| "perform (UpdateUserEditPermission noteId targetUserId canEdit requesterId) w =
     snd (updateUserEditPermission noteId targetUserId canEdit requesterId w)"
| "perform (RespondToEditRequest noteId targetUserId approved hostUserId) w =
     snd (respondToEditRequest noteId targetUserId approved hostUserId w)"
| "perform (RequestEditPermission now stamp noteId userId) w =
     snd (requestEditPermission now stamp noteId userId w)"
| "perform (CleanupExpiredRequests now noteId) w =
     snd (cleanupExpiredRequests now noteId w)"

definition reached :: "operation list \<Rightarrow> world" where
  "reached ops = fold perform ops empty_world"

text \<open>
  \<open>host_fields_kept before after\<close>: every record of \<open>before\<close> whose role is host and
  whose status is neither requested nor denied stands at the same place in \<open>after\<close>,
  with the same primary key, edit flag and status.
\<close>

definition host_fields_kept :: "NoteUser list \<Rightarrow> NoteUser list \<Rightarrow> bool" where
  "host_fields_kept before after \<longleftrightarrow>
     length before \<le> length after
     \<and> (\<forall>i < length before.
          role (before ! i) = Host
            \<and> permission_status (before ! i) \<noteq> Requested
            \<and> permission_status (before ! i) \<noteq> Denied \<longrightarrow>
          nu_id (after ! i) = nu_id (before ! i)
            \<and> can_edit (after ! i) = can_edit (before ! i)
            \<and> permission_status (after ! i) = permission_status (before ! i))"

definition example_rnd :: randomness where
  "example_rnd =
     \<lparr>noteCodes = (\<lambda>k. ''ABCDEF''), noteIds = (\<lambda>k. ''n1''), participantId = ''h'',
      hostRowId = ''r1''\<rparr>"

text \<open>
  \<open>well_formed\<close>: the store answers, the primary keys of both tables are distinct, a
  session holds at most one record per participant, and every record of
  \<^verbatim>\<open>note_users\<close> references a note. Every state reached from the empty store by the
  six operations is well formed (\<open>reached_well_formed\<close>).
\<close>

definition well_formed :: "world \<Rightarrow> bool" where
  "well_formed w \<longleftrightarrow>
     faults w = []
     \<and> distinct (map n_id (notes_tbl w))
     \<and> primary_keys_distinct w
     \<and> one_row_per_participant w
     \<and> set (map note_id (note_users w)) \<subseteq> set (map n_id (notes_tbl w))"

section \<open>Properties\<close>

subsection \<open>Text round trip\<close>

lemma split_not_Nil: "split sep s \<noteq> []"
  by (induction s) (auto split: list.splits)

lemma join_split: "join sep (split sep s) = s"
proof (induction s)
  case Nil
  show ?case by simp
next
  case (Cons c cs)
  obtain l ls where sp: "split sep cs = l # ls"
    using split_not_Nil [of sep cs] by (cases "split sep cs") auto
  show ?case
  proof (cases "c = sep")
    case True
    then show ?thesis using Cons sp by simp
  next
    case False
    have "join sep ((c # l) # ls) = c # join sep (l # ls)"
      by (cases ls) simp_all
    then show ?thesis using False Cons sp by simp
  qed
qed

lemma paragraph_text:
  "concat (map (\<lambda>child. case node_text child of None \<Rightarrow> [] | Some t \<Rightarrow> t)
             (if line \<noteq> [] then [TiptapNode ''text'' None (Some line)] else [])) = line"
  by simp

lemma trim_Nil_iff: "trim s = [] \<longleftrightarrow> (\<forall>c \<in> set s. isWhiteSpace c)"
proof
  assume "trim s = []"
  then have all: "\<forall>x \<in> set (dropWhile isWhiteSpace s). isWhiteSpace x"
    by (simp add: trim_def)
  have "dropWhile isWhiteSpace s = []"
  proof (rule ccontr)
    assume ne: "dropWhile isWhiteSpace s \<noteq> []"
    then have "\<not> isWhiteSpace (hd (dropWhile isWhiteSpace s))"
      by (rule hd_dropWhile)
    moreover have "hd (dropWhile isWhiteSpace s) \<in> set (dropWhile isWhiteSpace s)"
      using ne by (rule hd_in_set)
    ultimately show False using all by blast
  qed
  then show "\<forall>c \<in> set s. isWhiteSpace c"
    by simp
next
  assume "\<forall>c \<in> set s. isWhiteSpace c"
  then have d: "dropWhile isWhiteSpace s = []"
    by simp
  show "trim s = []"
    unfolding trim_def d by simp
qed

text \<open>
  Claim C10. For every string with at least one character that is not white space,
  converting it with \<open>textToTiptapJson\<close> and back with \<open>tiptapJsonToText\<close> gives the
  string itself, line breaks and empty lines included. For the empty string and for a
  string of white space only, \<open>textToTiptapJson\<close> gives the empty document and the way
  back gives the empty string.
\<close>

theorem text_tiptap_roundtrip:
  "((\<exists>c \<in> set s. \<not> isWhiteSpace c) \<longrightarrow> tiptapJsonToText (Some (textToTiptapJson s)) = s)
   \<and> ((\<forall>c \<in> set s. isWhiteSpace c) \<longrightarrow>
        textToTiptapJson s = Doc [] \<and> tiptapJsonToText (Some (textToTiptapJson s)) = [])"
proof (intro conjI impI)
  assume "\<exists>c \<in> set s. \<not> isWhiteSpace c"
  then have "trim s \<noteq> []" and "s \<noteq> []"
    by (auto simp: trim_Nil_iff)
  then have doc: "textToTiptapJson s =
      Doc (map (\<lambda>line. TiptapNode ''paragraph''
                  (Some (if line \<noteq> [] then [TiptapNode ''text'' None (Some line)] else [])) None)
             (split LF s))"
    by (simp add: textToTiptapJson_def)
  have "tiptapJsonToText (Some (textToTiptapJson s)) = join LF (map (\<lambda>line. line) (split LF s))"
    unfolding doc tiptapJsonToText_def by (simp add: comp_def paragraph_text)
  then show "tiptapJsonToText (Some (textToTiptapJson s)) = s"
    by (simp add: join_split)
next
  assume ws: "\<forall>c \<in> set s. isWhiteSpace c"
  then have "trim s = []"
    by (simp add: trim_Nil_iff)
  then show "textToTiptapJson s = Doc []"
    by (simp add: textToTiptapJson_def)
  then show "tiptapJsonToText (Some (textToTiptapJson s)) = []"
    by (simp add: tiptapJsonToText_def)
qed

theorem text_tiptap_roundtrip_witness:
  "tiptapJsonToText (Some (textToTiptapJson [0x61, 0x0A, 0x0A, 0x20, 0x62, 0x0A]))
     = [0x61, 0x0A, 0x0A, 0x20, 0x62, 0x0A]
   \<and> textToTiptapJson [0x20, 0x0A, 0x09, 0x3000] = Doc []
   \<and> tiptapJsonToText (Some (textToTiptapJson [0x20, 0x0A, 0x09, 0x3000])) = []"
proof -
  have h1: "\<exists>c \<in> set [0x61, 0x0A, 0x0A, 0x20, 0x62, 0x0A]. \<not> isWhiteSpace c"
    by (simp add: isWhiteSpace_def)
  have h2: "\<forall>c \<in> set [0x20, 0x0A, 0x09, 0x3000]. isWhiteSpace c"
    by (simp add: isWhiteSpace_def)
  show ?thesis
    using text_tiptap_roundtrip [of "[0x61, 0x0A, 0x0A, 0x20, 0x62, 0x0A]"]
          text_tiptap_roundtrip [of "[0x20, 0x0A, 0x09, 0x3000]"] h1 h2
    by blast
qed

subsection \<open>Store calls that reach the database\<close>

lemma next_fault_none: "faults w = [] \<Longrightarrow> next_fault w = (False, w)"
  by (simp add: next_fault_def)

lemma filter_key_find:
  "distinct (map f xs) \<Longrightarrow>
   filter (\<lambda>x. f x = k) xs = (case find (\<lambda>x. f x = k) xs of None \<Rightarrow> [] | Some x \<Rightarrow> [x])"
proof (induction xs)
  case Nil
  show ?case by simp
next
  case (Cons x xs)
  show ?case
  proof (cases "f x = k")
    case True
    with Cons.prems have "filter (\<lambda>y. f y = k) xs = []"
      by (auto simp: filter_empty_conv image_iff)
    with True show ?thesis by simp
  next
    case False
    with Cons show ?thesis by simp
  qed
qed

lemma participant_rows:
  "one_row_per_participant w \<Longrightarrow>
   filter (\<lambda>r. note_id r = noteId \<and> user_id r = userId) (note_users w)
     = (case participant w noteId userId of None \<Rightarrow> [] | Some u \<Rightarrow> [u])"
  using filter_key_find [of "\<lambda>r. (note_id r, user_id r)" "note_users w" "(noteId, userId)"]
  by (simp add: one_row_per_participant_def participant_def)

lemma select_user_single_ok:
  "faults w = [] \<Longrightarrow> select_user_single P w = (single (filter P (note_users w)), w)"
  by (simp add: select_user_single_def next_fault_none)

lemma update_user_single_ok:
  "faults w = [] \<Longrightarrow> update_user_single P upd w =
     (case single (map upd (filter P (note_users w))) of
        Inl e \<Rightarrow> (Inl e, w)
      | Inr r \<Rightarrow> (Inr r, w\<lparr>note_users := map (\<lambda>x. if P x then upd x else x) (note_users w)\<rparr>))"
  by (simp add: update_user_single_def next_fault_none)

lemma participant_key:
  "participant w noteId userId = Some u \<Longrightarrow> note_id u = noteId \<and> user_id u = userId"
  by (auto simp: participant_def dest: find_Some_iff [THEN iffD1])

lemma select_participant:
  assumes "faults w = []" "one_row_per_participant w"
  shows "select_user_single (\<lambda>r. note_id r = noteId \<and> user_id r = userId) w =
           (case participant w noteId userId of None \<Rightarrow> Inl PGRST116 | Some u \<Rightarrow> Inr u, w)"
  using assms participant_rows [of w noteId userId]
  by (simp add: select_user_single_ok single_def split: option.splits)

lemma update_participant:
  assumes "faults w = []" "one_row_per_participant w" "participant w noteId userId = Some u"
  shows "update_user_single (\<lambda>r. note_id r = noteId \<and> user_id r = userId) f w =
           (Inr (f u), w\<lparr>note_users := amend_participant noteId userId f (note_users w)\<rparr>)"
  using assms participant_rows [of w noteId userId]
  by (simp add: update_user_single_ok single_def amend_participant_def)

subsection \<open>Requesting the edit permission\<close>

lemma request_absent:
  assumes "noteId \<noteq> []" "userId \<noteq> []" "faults w = []" "one_row_per_participant w"
    and "participant w noteId userId = None"
  shows "requestEditPermission now stamp noteId userId w = (Inl UserNotFound, w)"
  using assms by (simp add: requestEditPermission_def select_participant)

lemma request_host:
  assumes "noteId \<noteq> []" "userId \<noteq> []" "faults w = []" "one_row_per_participant w"
    and "participant w noteId userId = Some u" "role u = Host"
  shows "requestEditPermission now stamp noteId userId w = (Inl HostAlreadyEditor, w)"
  using assms by (simp add: requestEditPermission_def select_participant)

lemma request_editor:
  assumes "noteId \<noteq> []" "userId \<noteq> []" "faults w = []" "one_row_per_participant w"
    and "participant w noteId userId = Some u" "role u = Guest" "can_edit u"
  shows "requestEditPermission now stamp noteId userId w = (Inl AlreadyCanEdit, w)"
  using assms by (simp add: requestEditPermission_def select_participant)

lemma request_cooldown:
  assumes "noteId \<noteq> []" "userId \<noteq> []" "faults w = []" "one_row_per_participant w"
    and "participant w noteId userId = Some u" "role u = Guest" "\<not> can_edit u"
    and "permission_status u = Requested \<or> permission_status u = Denied"
    and "permission_requested_at u = Some t" "now - t < 30000"
  shows "requestEditPermission now stamp noteId userId w
           = (Inl (CooldownWait \<lceil>30 - real_of_int (now - t) / 1000\<rceil>), w)"
  using assms
  by (auto simp: requestEditPermission_def select_participant COOLDOWN_SECONDS_def)

lemma request_accepted:
  assumes "noteId \<noteq> []" "userId \<noteq> []" "faults w = []" "one_row_per_participant w"
    and "participant w noteId userId = Some u" "role u = Guest" "\<not> can_edit u"
    and "\<not> ((permission_status u = Requested \<or> permission_status u = Denied)
            \<and> (\<exists>t. permission_requested_at u = Some t \<and> now - t < 30000))"
  shows "requestEditPermission now stamp noteId userId w
           = (Inr (u\<lparr>permission_status := Requested, permission_requested_at := Some stamp\<rparr>),
              w\<lparr>note_users := amend_participant noteId userId
                   (\<lambda>r. r\<lparr>permission_status := Requested, permission_requested_at := Some stamp\<rparr>)
                   (note_users w)\<rparr>)"
  using assms
  by (cases "permission_requested_at u")
     (auto simp: requestEditPermission_def select_participant update_participant
        COOLDOWN_SECONDS_def Let_def)

lemma amend_keeps_can_edit:
  "(\<And>r. can_edit (f r) = can_edit r) \<Longrightarrow>
   map can_edit (amend_participant noteId userId f rows) = map can_edit rows"
  by (simp add: amend_participant_def)

text \<open>
  Claim C2. For identifiers that are not empty, a store that answers and a table with at
  most one record per participant, \<open>requestEditPermission\<close> fails with \<open>UserNotFound\<close>
  when the participant has no record, with \<open>HostAlreadyEditor\<close> when the record is the
  host's, with \<open>AlreadyCanEdit\<close> when the guest's edit flag is set, and with \<open>CooldownWait\<close>
  when the guest's status is requested or denied and the stored request time is less than
  30000 milliseconds before \<open>now\<close>. In every other case it sets the participant's status
  to requested and the request time to the time of the update, returns the updated record,
  changes no other record and no edit flag. A failure changes nothing.
\<close>

theorem requestEditPermission_outcomes:
  assumes ids: "noteId \<noteq> []" "userId \<noteq> []"
    and ok: "faults w = []"
    and uniq: "one_row_per_participant w"
  shows
    "(participant w noteId userId = None \<longrightarrow>
        requestEditPermission now stamp noteId userId w = (Inl UserNotFound, w))
     \<and> (\<forall>u. participant w noteId userId = Some u \<longrightarrow>
          (role u = Host \<longrightarrow>
             requestEditPermission now stamp noteId userId w = (Inl HostAlreadyEditor, w))
        \<and> (role u = Guest \<and> can_edit u \<longrightarrow>
             requestEditPermission now stamp noteId userId w = (Inl AlreadyCanEdit, w))
        \<and> (\<forall>t. role u = Guest \<and> \<not> can_edit u
               \<and> (permission_status u = Requested \<or> permission_status u = Denied)
               \<and> permission_requested_at u = Some t \<and> now - t < 30000 \<longrightarrow>
             requestEditPermission now stamp noteId userId w
               = (Inl (CooldownWait \<lceil>30 - real_of_int (now - t) / 1000\<rceil>), w))
        \<and> (role u = Guest \<and> \<not> can_edit u
             \<and> \<not> ((permission_status u = Requested \<or> permission_status u = Denied)
                  \<and> (\<exists>t. permission_requested_at u = Some t \<and> now - t < 30000)) \<longrightarrow>
             requestEditPermission now stamp noteId userId w
               = (Inr (u\<lparr>permission_status := Requested, permission_requested_at := Some stamp\<rparr>),
                  w\<lparr>note_users := amend_participant noteId userId
                       (\<lambda>r. r\<lparr>permission_status := Requested, permission_requested_at := Some stamp\<rparr>)
                       (note_users w)\<rparr>)
             \<and> map can_edit (amend_participant noteId userId
                       (\<lambda>r. r\<lparr>permission_status := Requested, permission_requested_at := Some stamp\<rparr>)
                       (note_users w)) = map can_edit (note_users w)))"
  using request_absent [OF ids ok uniq] request_host [OF ids ok uniq]
    request_editor [OF ids ok uniq] request_cooldown [OF ids ok uniq]
    request_accepted [OF ids ok uniq, of _ now stamp]
  by (simp add: amend_keeps_can_edit)

theorem requestEditPermission_outcomes_witness:
  "requestEditPermission 50000 50001 ''n1'' ''g'' example_world
     = (Inr (example_guest\<lparr>permission_status := Requested, permission_requested_at := Some 50001\<rparr>),
        example_world\<lparr>note_users :=
          [example_host,
           example_guest\<lparr>permission_status := Requested, permission_requested_at := Some 50001\<rparr>]\<rparr>)
   \<and> requestEditPermission 50000 50001 ''n1'' ''h'' example_world = (Inl HostAlreadyEditor, example_world)
   \<and> requestEditPermission 50000 50001 ''n1'' ''x'' example_world = (Inl UserNotFound, example_world)"
proof -
  have h: "''n1'' \<noteq> []" "''g'' \<noteq> []" "''h'' \<noteq> []" "''x'' \<noteq> []"
    "faults example_world = []" "one_row_per_participant example_world"
    by (simp_all add: example_world_def one_row_per_participant_def example_host_def example_guest_def)
  have p: "participant example_world ''n1'' ''g'' = Some example_guest"
    "participant example_world ''n1'' ''h'' = Some example_host"
    "participant example_world ''n1'' ''x'' = None"
    by (simp_all add: participant_def example_world_def example_host_def example_guest_def)
  have g: "role example_guest = Guest" "\<not> can_edit example_guest"
    "permission_status example_guest = NoneStatus" "role example_host = Host"
    by (simp_all add: example_guest_def example_host_def)
  have a: "amend_participant ''n1'' ''g''
             (\<lambda>r. r\<lparr>permission_status := Requested, permission_requested_at := Some 50001\<rparr>)
             (note_users example_world)
           = [example_host,
              example_guest\<lparr>permission_status := Requested, permission_requested_at := Some 50001\<rparr>]"
    by (simp add: amend_participant_def example_world_def example_host_def example_guest_def)
  show ?thesis
    using requestEditPermission_outcomes [OF h(1) h(2) h(5) h(6), of 50000 50001]
      requestEditPermission_outcomes [OF h(1) h(3) h(5) h(6), of 50000 50001]
      requestEditPermission_outcomes [OF h(1) h(4) h(5) h(6), of 50000 50001]
    by (simp add: p g a)
qed

subsection \<open>The cooldown after a request\<close>

lemma find_amend:
  assumes "\<And>r. note_id (f r) = note_id r \<and> user_id (f r) = user_id r"
  shows "find (\<lambda>r. note_id r = n \<and> user_id r = u) (amend_participant noteId userId f rows)
         = (if n = noteId \<and> u = userId
            then map_option f (find (\<lambda>r. note_id r = n \<and> user_id r = u) rows)
            else find (\<lambda>r. note_id r = n \<and> user_id r = u) rows)"
  by (induction rows) (auto simp: amend_participant_def assms)

lemma participant_amend:
  assumes "\<And>r. note_id (f r) = note_id r \<and> user_id (f r) = user_id r"
  shows "participant (w\<lparr>note_users := amend_participant noteId userId f (note_users w)\<rparr>) noteId userId
         = map_option f (participant w noteId userId)"
  by (simp add: participant_def find_amend [OF assms])

lemma amend_keeps_keys:
  assumes "\<And>r. note_id (f r) = note_id r \<and> user_id (f r) = user_id r"
  shows "map (\<lambda>r. (note_id r, user_id r)) (amend_participant noteId userId f rows)
         = map (\<lambda>r. (note_id r, user_id r)) rows"
  by (simp add: amend_participant_def assms)

lemma one_row_amend:
  assumes "\<And>r. note_id (f r) = note_id r \<and> user_id (f r) = user_id r"
    and "one_row_per_participant w"
  shows "one_row_per_participant (w\<lparr>note_users := amend_participant noteId userId f (note_users w)\<rparr>)"
  using assms(2) by (simp add: one_row_per_participant_def amend_keeps_keys [OF assms(1)])

lemma request_Inr:
  assumes ids: "noteId \<noteq> []" "userId \<noteq> []" and ok: "faults w = []"
    and uniq: "one_row_per_participant w"
    and res: "requestEditPermission now stamp noteId userId w = (Inr u1, w1)"
  shows "\<exists>u. participant w noteId userId = Some u \<and> role u = Guest \<and> \<not> can_edit u
           \<and> u1 = u\<lparr>permission_status := Requested, permission_requested_at := Some stamp\<rparr>
           \<and> w1 = w\<lparr>note_users := amend_participant noteId userId
                   (\<lambda>r. r\<lparr>permission_status := Requested, permission_requested_at := Some stamp\<rparr>)
                   (note_users w)\<rparr>"
proof (cases "participant w noteId userId")
  case None
  then show ?thesis using request_absent [OF ids ok uniq None, of now stamp] res by simp
next
  case (Some u)
  show ?thesis
  proof (cases "role u")
    case Host
    then show ?thesis using request_host [OF ids ok uniq Some, of now stamp] res by simp
  next
    case Guest
    show ?thesis
    proof (cases "can_edit u")
      case True
      then show ?thesis using request_editor [OF ids ok uniq Some Guest, of now stamp] res by simp
    next
      case False
      show ?thesis
      proof (cases "(permission_status u = Requested \<or> permission_status u = Denied)
            \<and> (\<exists>t. permission_requested_at u = Some t \<and> now - t < 30000)")
        case True
        then obtain t where "permission_requested_at u = Some t" "now - t < 30000"
          and "permission_status u = Requested \<or> permission_status u = Denied" by blast
        then show ?thesis
          using request_cooldown [OF ids ok uniq Some Guest False, of t now stamp] res by simp
      next
        case nc: False
        have "requestEditPermission now stamp noteId userId w
           = (Inr (u\<lparr>permission_status := Requested, permission_requested_at := Some stamp\<rparr>),
              w\<lparr>note_users := amend_participant noteId userId
                   (\<lambda>r. r\<lparr>permission_status := Requested, permission_requested_at := Some stamp\<rparr>)
                   (note_users w)\<rparr>)"
          using request_accepted [OF ids ok uniq Some Guest False nc] .
        with res have "u1 = u\<lparr>permission_status := Requested, permission_requested_at := Some stamp\<rparr>"
          and "w1 = w\<lparr>note_users := amend_participant noteId userId
                   (\<lambda>r. r\<lparr>permission_status := Requested, permission_requested_at := Some stamp\<rparr>)
                   (note_users w)\<rparr>"
          by simp_all
        with Some Guest False show ?thesis by blast
      qed
    qed
  qed
qed

lemma remaining_bounds:
  fixes d :: int
  assumes "0 < d" "d < 30000"
  shows "0 < \<lceil>30 - real_of_int d / 1000\<rceil>" "\<lceil>30 - real_of_int d / 1000\<rceil> \<le> 30"
    "\<lceil>30 - real_of_int d / 1000\<rceil> < 30 \<longleftrightarrow> 1000 \<le> d"
proof -
  show "0 < \<lceil>30 - real_of_int d / 1000\<rceil>"
    using assms by (simp add: less_ceiling_iff)
  show "\<lceil>30 - real_of_int d / 1000\<rceil> \<le> 30"
    using assms by (simp add: ceiling_le_iff)
  have "\<lceil>30 - real_of_int d / 1000\<rceil> < 30 \<longleftrightarrow> \<lceil>30 - real_of_int d / 1000\<rceil> \<le> 29"
    by linarith
  also have "\<dots> \<longleftrightarrow> 30 - real_of_int d / 1000 \<le> 29"
    by (simp add: ceiling_le_iff)
  also have "\<dots> \<longleftrightarrow> 1000 \<le> d"
    by auto
  finally show "\<lceil>30 - real_of_int d / 1000\<rceil> < 30 \<longleftrightarrow> 1000 \<le> d" .
qed

text \<open>
  Claim C6, amended. When \<open>requestEditPermission\<close> has succeeded for a guest and is called
  again for the same guest while the time elapsed since the first call's time stamp is
  strictly between 0 and 30 seconds, the second call fails with \<open>CooldownWait\<close>, and the
  remaining seconds it carries are the ceiling of 30 minus the elapsed seconds: strictly
  greater than 0 and at most 30, and below 30 exactly when a full second has elapsed.
\<close>

theorem second_request_cooldown:
  assumes ids: "noteId \<noteq> []" "userId \<noteq> []" and ok: "faults w = []"
    and uniq: "one_row_per_participant w"
    and first: "requestEditPermission now1 stamp1 noteId userId w = (Inr u1, w1)"
    and elapsed: "0 < now2 - stamp1" "now2 - stamp1 < 30000"
  shows "requestEditPermission now2 stamp2 noteId userId w1
           = (Inl (CooldownWait \<lceil>30 - real_of_int (now2 - stamp1) / 1000\<rceil>), w1)
         \<and> 0 < \<lceil>30 - real_of_int (now2 - stamp1) / 1000\<rceil>
         \<and> \<lceil>30 - real_of_int (now2 - stamp1) / 1000\<rceil> \<le> 30
         \<and> (\<lceil>30 - real_of_int (now2 - stamp1) / 1000\<rceil> < 30 \<longleftrightarrow> 1000 \<le> now2 - stamp1)"
proof -
  let ?f = "\<lambda>r. r\<lparr>permission_status := Requested, permission_requested_at := Some stamp1\<rparr>"
  obtain u where u: "participant w noteId userId = Some u" "role u = Guest" "\<not> can_edit u"
    and u1: "u1 = ?f u"
    and w1: "w1 = w\<lparr>note_users := amend_participant noteId userId ?f (note_users w)\<rparr>"
    using request_Inr [OF ids ok uniq first] by blast
  have keys: "\<And>r. note_id (?f r) = note_id r \<and> user_id (?f r) = user_id r"
    by simp
  have ok1: "faults w1 = []" using ok w1 by simp
  have uniq1: "one_row_per_participant w1"
    unfolding w1 using keys uniq by (rule one_row_amend)
  have p1: "participant w1 noteId userId = Some (?f u)"
    unfolding w1 using participant_amend [OF keys] u(1) by simp
  have "requestEditPermission now2 stamp2 noteId userId w1
           = (Inl (CooldownWait \<lceil>30 - real_of_int (now2 - stamp1) / 1000\<rceil>), w1)"
    using request_cooldown [OF ids ok1 uniq1 p1, of stamp1 now2 stamp2] u elapsed by simp
  then show ?thesis
    using remaining_bounds [OF elapsed] by simp
qed

theorem second_request_cooldown_witness:
  "requestEditPermission 10000 10000 ''n1'' ''g''
      (example_world\<lparr>note_users :=
          [example_host,
           example_guest\<lparr>permission_status := Requested, permission_requested_at := Some 0\<rparr>]\<rparr>)
     = (Inl (CooldownWait 20),
        example_world\<lparr>note_users :=
          [example_host,
           example_guest\<lparr>permission_status := Requested, permission_requested_at := Some 0\<rparr>]\<rparr>)"
proof -
  have h: "''n1'' \<noteq> []" "''g'' \<noteq> []"
    "faults example_world = []" "one_row_per_participant example_world"
    by (simp_all add: example_world_def one_row_per_participant_def example_host_def example_guest_def)
  have first: "requestEditPermission 0 0 ''n1'' ''g'' example_world
     = (Inr (example_guest\<lparr>permission_status := Requested, permission_requested_at := Some 0\<rparr>),
        example_world\<lparr>note_users :=
          [example_host,
           example_guest\<lparr>permission_status := Requested, permission_requested_at := Some 0\<rparr>]\<rparr>)"
    by (simp add: requestEditPermission_def select_user_single_def update_user_single_def
          next_fault_def single_def example_world_def example_host_def example_guest_def)
  have e: "(0::int) < 10000 - 0" "(10000::int) - 0 < 30000" by simp_all
  show ?thesis
    using second_request_cooldown [OF h first e, of 10000] by simp
qed

text \<open>
  Claim C6 as stated asks for a remaining time strictly below 30. Half a second after a
  successful request the second call reports 30 seconds.
\<close>

theorem remaining_below_30_counterexample:
  "requestEditPermission 0 0 ''n1'' ''g'' example_world
     = (Inr (example_guest\<lparr>permission_status := Requested, permission_requested_at := Some 0\<rparr>),
        example_world\<lparr>note_users :=
          [example_host,
           example_guest\<lparr>permission_status := Requested, permission_requested_at := Some 0\<rparr>]\<rparr>)
   \<and> requestEditPermission 500 500 ''n1'' ''g''
        (example_world\<lparr>note_users :=
          [example_host,
           example_guest\<lparr>permission_status := Requested, permission_requested_at := Some 0\<rparr>]\<rparr>)
     = (Inl (CooldownWait 30),
        example_world\<lparr>note_users :=
          [example_host,
           example_guest\<lparr>permission_status := Requested, permission_requested_at := Some 0\<rparr>]\<rparr>)"
  by (simp add: requestEditPermission_def select_user_single_def update_user_single_def
        next_fault_def single_def example_world_def example_host_def example_guest_def
        COOLDOWN_SECONDS_def)

subsection \<open>Answering a request\<close>

lemma select_host:
  assumes "faults w = []" "one_row_per_participant w"
  shows "select_user_single (\<lambda>r. note_id r = noteId \<and> user_id r = userId \<and> role r = Host) w =
           (case participant w noteId userId of
              None \<Rightarrow> Inl PGRST116
            | Some h \<Rightarrow> if role h = Host then Inr h else Inl PGRST116, w)"
proof -
  have "filter (\<lambda>r. note_id r = noteId \<and> user_id r = userId \<and> role r = Host) (note_users w)
        = filter (\<lambda>r. role r = Host)
            (filter (\<lambda>r. note_id r = noteId \<and> user_id r = userId) (note_users w))"
    by (simp add: conj_commute conj_left_commute)
  then show ?thesis
    using assms participant_rows [of w noteId userId]
    by (simp add: select_user_single_ok single_def split: option.splits)
qed

lemma respond_not_host:
  assumes "noteId \<noteq> []" "targetUserId \<noteq> []" "hostUserId \<noteq> []"
    and "faults w = []" "one_row_per_participant w"
    and "\<not> (\<exists>h. participant w noteId hostUserId = Some h \<and> role h = Host)"
  shows "respondToEditRequest noteId targetUserId approved hostUserId w = (Inl HostOnly, w)"
  using assms by (auto simp: respondToEditRequest_def select_host split: option.splits)

lemma respond_no_target:
  assumes "noteId \<noteq> []" "targetUserId \<noteq> []" "hostUserId \<noteq> []"
    and "faults w = []" "one_row_per_participant w"
    and "participant w noteId hostUserId = Some h" "role h = Host"
    and "participant w noteId targetUserId = None"
  shows "respondToEditRequest noteId targetUserId approved hostUserId w = (Inl TargetNotFound, w)"
  using assms by (simp add: respondToEditRequest_def select_host select_participant)

lemma respond_not_requested:
  assumes "noteId \<noteq> []" "targetUserId \<noteq> []" "hostUserId \<noteq> []"
    and "faults w = []" "one_row_per_participant w"
    and "participant w noteId hostUserId = Some h" "role h = Host"
    and "participant w noteId targetUserId = Some t" "permission_status t \<noteq> Requested"
  shows "respondToEditRequest noteId targetUserId approved hostUserId w = (Inl NotRequested, w)"
  using assms by (simp add: respondToEditRequest_def select_host select_participant)

lemma respond_approved:
  assumes "noteId \<noteq> []" "targetUserId \<noteq> []" "hostUserId \<noteq> []"
    and "faults w = []" "one_row_per_participant w"
    and "participant w noteId hostUserId = Some h" "role h = Host"
    and "participant w noteId targetUserId = Some t" "permission_status t = Requested"
  shows "respondToEditRequest noteId targetUserId True hostUserId w
           = (Inr (t\<lparr>can_edit := True, permission_status := Granted\<rparr>),
              w\<lparr>note_users := amend_participant noteId targetUserId
                   (\<lambda>r. r\<lparr>can_edit := True, permission_status := Granted\<rparr>) (note_users w)\<rparr>)"
  using assms
  by (simp add: respondToEditRequest_def select_host select_participant update_participant)

lemma respond_denied:
  assumes "noteId \<noteq> []" "targetUserId \<noteq> []" "hostUserId \<noteq> []"
    and "faults w = []" "one_row_per_participant w"
    and "participant w noteId hostUserId = Some h" "role h = Host"
    and "participant w noteId targetUserId = Some t" "permission_status t = Requested"
  shows "respondToEditRequest noteId targetUserId False hostUserId w
           = (Inr (t\<lparr>permission_status := Denied\<rparr>),
              w\<lparr>note_users := amend_participant noteId targetUserId
                   (\<lambda>r. r\<lparr>permission_status := Denied\<rparr>) (note_users w)\<rparr>)"
  using assms
  by (simp add: respondToEditRequest_def select_host select_participant update_participant)

text \<open>
  Claim C3. For identifiers that are not empty, a store that answers and a table with at
  most one record per participant: \<open>respondToEditRequest\<close> fails with \<open>HostOnly\<close> unless
  the caller has a record in the session whose role is host; it fails with
  \<open>TargetNotFound\<close> when the target has no record and with \<open>NotRequested\<close> when the
  target's status is not requested. For a target whose status is requested, approval sets
  the target's edit flag and the status granted, and refusal sets the status denied and
  leaves every edit flag as it was. No other record changes.
\<close>

theorem respondToEditRequest_outcomes:
  assumes ids: "noteId \<noteq> []" "targetUserId \<noteq> []" "hostUserId \<noteq> []"
    and ok: "faults w = []"
    and uniq: "one_row_per_participant w"
  shows
    "(\<not> (\<exists>h. participant w noteId hostUserId = Some h \<and> role h = Host) \<longrightarrow>
        respondToEditRequest noteId targetUserId approved hostUserId w = (Inl HostOnly, w))
     \<and> (\<forall>h. participant w noteId hostUserId = Some h \<and> role h = Host \<longrightarrow>
          (participant w noteId targetUserId = None \<longrightarrow>
             respondToEditRequest noteId targetUserId approved hostUserId w = (Inl TargetNotFound, w))
        \<and> (\<forall>t. participant w noteId targetUserId = Some t \<longrightarrow>
             (permission_status t \<noteq> Requested \<longrightarrow>
                respondToEditRequest noteId targetUserId approved hostUserId w = (Inl NotRequested, w))
           \<and> (permission_status t = Requested \<longrightarrow>
                respondToEditRequest noteId targetUserId True hostUserId w
                  = (Inr (t\<lparr>can_edit := True, permission_status := Granted\<rparr>),
                     w\<lparr>note_users := amend_participant noteId targetUserId
                          (\<lambda>r. r\<lparr>can_edit := True, permission_status := Granted\<rparr>) (note_users w)\<rparr>)
                \<and> respondToEditRequest noteId targetUserId False hostUserId w
                  = (Inr (t\<lparr>permission_status := Denied\<rparr>),
                     w\<lparr>note_users := amend_participant noteId targetUserId
                          (\<lambda>r. r\<lparr>permission_status := Denied\<rparr>) (note_users w)\<rparr>)
                \<and> map can_edit (amend_participant noteId targetUserId
                          (\<lambda>r. r\<lparr>permission_status := Denied\<rparr>) (note_users w))
                    = map can_edit (note_users w))))"
  using respond_not_host [OF ids ok uniq] respond_no_target [OF ids ok uniq]
    respond_not_requested [OF ids ok uniq] respond_approved [OF ids ok uniq]
    respond_denied [OF ids ok uniq]
  by (simp add: amend_keeps_can_edit)

lemma pending_facts:
  "''n1'' \<noteq> []" "''g'' \<noteq> []" "''h'' \<noteq> []"
  "faults pending_world = []" "one_row_per_participant pending_world"
  "participant pending_world ''n1'' ''g'' = Some pending_guest"
  "participant pending_world ''n1'' ''h'' = Some example_host"
  "role example_host = Host" "role pending_guest = Guest"
  "permission_status pending_guest = Requested" "\<not> can_edit pending_guest"
  by (simp_all add: pending_world_def pending_guest_def example_world_def one_row_per_participant_def
        participant_def example_host_def example_guest_def)

theorem respondToEditRequest_outcomes_witness:
  "respondToEditRequest ''n1'' ''g'' True ''h'' pending_world
     = (Inr (pending_guest\<lparr>can_edit := True, permission_status := Granted\<rparr>),
        pending_world\<lparr>note_users :=
          [example_host, pending_guest\<lparr>can_edit := True, permission_status := Granted\<rparr>]\<rparr>)
   \<and> respondToEditRequest ''n1'' ''g'' False ''h'' pending_world
     = (Inr (pending_guest\<lparr>permission_status := Denied\<rparr>),
        pending_world\<lparr>note_users := [example_host, pending_guest\<lparr>permission_status := Denied\<rparr>]\<rparr>)
   \<and> respondToEditRequest ''n1'' ''g'' True ''g'' pending_world = (Inl HostOnly, pending_world)"
proof -
  have a: "\<And>f. amend_participant ''n1'' ''g'' f (note_users pending_world)
             = [example_host, f pending_guest]"
    by (simp add: amend_participant_def pending_world_def pending_guest_def example_host_def
          example_guest_def)
  have nh: "\<not> (\<exists>h. participant pending_world ''n1'' ''g'' = Some h \<and> role h = Host)"
    by (simp add: pending_facts)
  show ?thesis
    using respondToEditRequest_outcomes [OF pending_facts(1) pending_facts(2) pending_facts(3)
        pending_facts(4) pending_facts(5), of True]
      respondToEditRequest_outcomes [OF pending_facts(1) pending_facts(2) pending_facts(2)
        pending_facts(4) pending_facts(5), of True] nh
    by (simp add: pending_facts a)
qed

subsection \<open>The host's direct toggle\<close>

text \<open>
  Claim C4 says that \<open>updateUserEditPermission\<close> sets the target's status to granted
  when it sets the edit flag. The update writes \<^verbatim>\<open>can_edit\<close> only: for a guest whose
  request is pending, the record returned and stored has the edit flag set and the status
  still requested.
\<close>

theorem toggle_leaves_status_requested:
  "updateUserEditPermission ''n1'' ''g'' True ''h'' pending_world
     = (Inr (pending_guest\<lparr>can_edit := True\<rparr>),
        pending_world\<lparr>note_users := [example_host, pending_guest\<lparr>can_edit := True\<rparr>]\<rparr>)
   \<and> permission_status (pending_guest\<lparr>can_edit := True\<rparr>) = Requested"
  by (simp add: updateUserEditPermission_def select_user_single_def update_user_single_def
        next_fault_def single_def pending_world_def pending_guest_def example_world_def
        example_host_def example_guest_def)

text \<open>
  More generally, no call of \<open>updateUserEditPermission\<close> changes any status, whatever
  the state and the arguments, also when a store call fails.
\<close>

lemma toggle_keeps_every_status:
  "map permission_status
     (note_users (snd (updateUserEditPermission noteId targetUserId canEdit requesterId w)))
   = map permission_status (note_users w)"
proof -
  let ?T = "\<lambda>r. note_id r = noteId \<and> user_id r = targetUserId"
  obtain r1 w1 where s1: "select_user_single
      (\<lambda>r. note_id r = noteId \<and> user_id r = requesterId \<and> role r = Host) w = (r1, w1)"
    by (cases "select_user_single
      (\<lambda>r. note_id r = noteId \<and> user_id r = requesterId \<and> role r = Host) w")
  obtain r2 w2 where s2: "select_user_single ?T w1 = (r2, w2)"
    by (cases "select_user_single ?T w1")
  obtain r3 w3 where s3: "update_user_single ?T (\<lambda>r. r\<lparr>can_edit := canEdit\<rparr>) w2 = (r3, w3)"
    by (cases "update_user_single ?T (\<lambda>r. r\<lparr>can_edit := canEdit\<rparr>) w2")
  have u1: "note_users w1 = note_users w"
    using s1 by (auto simp: select_user_single_def next_fault_def split: list.splits bool.splits)
  have u2: "note_users w2 = note_users w1"
    using s2 by (auto simp: select_user_single_def next_fault_def split: list.splits bool.splits)
  have u3: "map permission_status (note_users w3) = map permission_status (note_users w2)"
    using s3
    by (auto simp: update_user_single_def next_fault_def comp_def
          split: list.splits bool.splits sum.splits)
  have "snd (updateUserEditPermission noteId targetUserId canEdit requesterId w) \<in> {w, w1, w2, w3}"
    by (simp add: updateUserEditPermission_def s1 s2 s3 split: sum.splits)
  then show ?thesis
    using u1 u2 u3 by auto
qed

subsection \<open>Expired requests\<close>

lemma cleanup_returns: "fst (cleanupExpiredRequests now noteId w) = Inr ()"
  by (simp add: cleanupExpiredRequests_def Let_def split: prod.splits option.splits)

lemma update_users_ok:
  "faults w = [] \<Longrightarrow> update_users P upd w =
     (None, w\<lparr>note_users := map (\<lambda>x. if P x then upd x else x) (note_users w)\<rparr>)"
  by (simp add: update_users_def next_fault_none)

lemma update_users_fails:
  "faults w = True # fs \<Longrightarrow> update_users P upd w = (Some unavailable, w\<lparr>faults := fs\<rparr>)"
  by (simp add: update_users_def next_fault_def)

lemma cleanup_ok:
  assumes "noteId \<noteq> []" "faults w = []"
  shows "cleanupExpiredRequests now noteId w =
    (Inr (), w\<lparr>note_users :=
       map (\<lambda>r. if note_id r = noteId
                    \<and> (permission_status r = Requested \<or> permission_status r = Denied)
                    \<and> (\<exists>t. permission_requested_at r = Some t \<and> 86400000 < now - t)
                 then r\<lparr>permission_status := NoneStatus, permission_requested_at := None\<rparr>
                 else r) (note_users w)\<rparr>)"
proof -
  have rows: "map (\<lambda>r. if note_id r = noteId \<and> permission_status r \<in> set [Requested, Denied]
              \<and> (case permission_requested_at r of None \<Rightarrow> False
                  | Some t \<Rightarrow> t < now - EXPIRY_HOURS * 60 * 60 * 1000)
              then r\<lparr>permission_status := NoneStatus, permission_requested_at := None\<rparr> else r)
            (note_users w)
        = map (\<lambda>r. if note_id r = noteId
                    \<and> (permission_status r = Requested \<or> permission_status r = Denied)
                    \<and> (\<exists>t. permission_requested_at r = Some t \<and> 86400000 < now - t)
                 then r\<lparr>permission_status := NoneStatus, permission_requested_at := None\<rparr>
                 else r) (note_users w)"
    by (rule map_cong [OF refl]) (auto simp: EXPIRY_HOURS_def split: option.splits)
  show ?thesis
    unfolding cleanupExpiredRequests_def Let_def update_users_ok [OF assms(2)] rows
    using assms(1) by simp
qed

text \<open>
  Claim C7. \<open>cleanupExpiredRequests\<close> never throws. When the store answers, every
  record of the session (a guest's in particular; the update does not look at the role)
  whose status is requested or denied and whose request time is more than 24 hours before
  \<open>now\<close> gets the status none and no request time; a record whose status is granted or
  none, a record whose request time is less than 24 hours old and a record of another
  session stay as they are. When the store call fails, no table changes and the failure
  is written to the console.
\<close>

theorem cleanupExpiredRequests_effect:
  "fst (cleanupExpiredRequests now noteId w) = Inr ()
   \<and> (noteId \<noteq> [] \<and> faults w = [] \<longrightarrow>
        length (note_users (snd (cleanupExpiredRequests now noteId w))) = length (note_users w)
        \<and> (\<forall>i < length (note_users w).
             (note_id (note_users w ! i) = noteId
                \<and> (permission_status (note_users w ! i) = Requested
                     \<or> permission_status (note_users w ! i) = Denied)
                \<and> (\<exists>t. permission_requested_at (note_users w ! i) = Some t \<and> 86400000 < now - t)
              \<longrightarrow> note_users (snd (cleanupExpiredRequests now noteId w)) ! i
                    = (note_users w ! i)\<lparr>permission_status := NoneStatus,
                                          permission_requested_at := None\<rparr>)
           \<and> (permission_status (note_users w ! i) = Granted
                \<or> permission_status (note_users w ! i) = NoneStatus
                \<or> (\<exists>t. permission_requested_at (note_users w ! i) = Some t \<and> now - t < 86400000)
                \<or> note_id (note_users w ! i) \<noteq> noteId
              \<longrightarrow> note_users (snd (cleanupExpiredRequests now noteId w)) ! i = note_users w ! i)))
   \<and> (\<forall>fs. noteId \<noteq> [] \<and> faults w = True # fs \<longrightarrow>
        cleanupExpiredRequests now noteId w
          = (Inr (), w\<lparr>faults := fs, console := console w @ [CleanupFailed unavailable]\<rparr>))"
proof (intro conjI allI impI)
  show "fst (cleanupExpiredRequests now noteId w) = Inr ()"
    by (rule cleanup_returns)
next
  assume "noteId \<noteq> [] \<and> faults w = []"
  then show "length (note_users (snd (cleanupExpiredRequests now noteId w))) = length (note_users w)"
    by (simp add: cleanup_ok)
next
  fix i
  assume h: "noteId \<noteq> [] \<and> faults w = []" and i: "i < length (note_users w)"
  { assume "note_id (note_users w ! i) = noteId
                \<and> (permission_status (note_users w ! i) = Requested
                     \<or> permission_status (note_users w ! i) = Denied)
                \<and> (\<exists>t. permission_requested_at (note_users w ! i) = Some t \<and> 86400000 < now - t)"
    then show "note_users (snd (cleanupExpiredRequests now noteId w)) ! i
                    = (note_users w ! i)\<lparr>permission_status := NoneStatus,
                                          permission_requested_at := None\<rparr>"
      using h i by (simp add: cleanup_ok) }
  { assume "permission_status (note_users w ! i) = Granted
                \<or> permission_status (note_users w ! i) = NoneStatus
                \<or> (\<exists>t. permission_requested_at (note_users w ! i) = Some t \<and> now - t < 86400000)
                \<or> note_id (note_users w ! i) \<noteq> noteId"
    then show "note_users (snd (cleanupExpiredRequests now noteId w)) ! i = note_users w ! i"
      using h i by (auto simp: cleanup_ok) }
next
  fix fs
  assume "noteId \<noteq> [] \<and> faults w = True # fs"
  then show "cleanupExpiredRequests now noteId w
          = (Inr (), w\<lparr>faults := fs, console := console w @ [CleanupFailed unavailable]\<rparr>)"
    by (simp add: cleanupExpiredRequests_def Let_def update_users_fails)
qed


theorem cleanupExpiredRequests_effect_witness:
  "fst (cleanupExpiredRequests 86400001 ''n1'' pending_world) = Inr ()
   \<and> note_users (snd (cleanupExpiredRequests 86400001 ''n1'' pending_world)) ! 0 = example_host
   \<and> note_users (snd (cleanupExpiredRequests 86400001 ''n1'' pending_world)) ! 1
       = pending_guest\<lparr>permission_status := NoneStatus, permission_requested_at := None\<rparr>
   \<and> cleanupExpiredRequests 86400001 ''n1'' (pending_world\<lparr>faults := [True]\<rparr>)
       = (Inr (), pending_world\<lparr>faults := [], console := [CleanupFailed unavailable]\<rparr>)"
proof -
  note t = cleanupExpiredRequests_effect [of 86400001 "''n1''" pending_world]
  note f = cleanupExpiredRequests_effect [of 86400001 "''n1''" "pending_world\<lparr>faults := [True]\<rparr>"]
  have pre: "''n1'' \<noteq> [] \<and> faults pending_world = []"
    by (simp add: pending_world_def example_world_def)
  have pre2: "''n1'' \<noteq> [] \<and> faults (pending_world\<lparr>faults := [True]\<rparr>) = True # []"
    by simp
  note rows = t [THEN conjunct2, THEN conjunct1, THEN mp, OF pre, THEN conjunct2]
  show ?thesis
    using t [THEN conjunct1] rows [THEN spec, of 0] rows [THEN spec, of 1]
      f [THEN conjunct2, THEN conjunct2, THEN spec, THEN mp, OF pre2]
    by (simp add: pending_world_def pending_guest_def example_world_def example_host_def
          example_guest_def)
qed

subsection \<open>Joining a session\<close>

lemma same_row:
  assumes "distinct (map f rows)" "e \<in> set rows" "x \<in> set rows"
  shows "f x = f e \<longleftrightarrow> x = e"
  using assms by (auto simp: distinct_map inj_on_def)

lemma participant_in_rows:
  "participant w noteId userId = Some e \<Longrightarrow> e \<in> set (note_users w)"
  by (auto simp: participant_def find_Some_iff)

lemma update_by_id:
  assumes ok: "faults w = []" and pk: "primary_keys_distinct w" and uniq: "one_row_per_participant w"
    and e: "participant w noteId userId = Some e"
  shows "update_user_single (\<lambda>r. nu_id r = nu_id e) f w
         = (Inr (f e), w\<lparr>note_users := amend_participant noteId userId f (note_users w)\<rparr>)"
proof -
  have mem: "e \<in> set (note_users w)" using e by (rule participant_in_rows)
  have key: "note_id e = noteId \<and> user_id e = userId" using e by (rule participant_key)
  have a: "\<And>x. x \<in> set (note_users w) \<Longrightarrow> (nu_id x = nu_id e) = (x = e)"
    using same_row [of nu_id "note_users w" e] pk mem by (simp add: primary_keys_distinct_def)
  have b: "\<And>x. x \<in> set (note_users w) \<Longrightarrow> (note_id x = noteId \<and> user_id x = userId) = (x = e)"
    using same_row [of "\<lambda>r. (note_id r, user_id r)" "note_users w" e] uniq mem key
    by (simp add: one_row_per_participant_def)
  have f1: "filter (\<lambda>r. nu_id r = nu_id e) (note_users w)
            = filter (\<lambda>r. note_id r = noteId \<and> user_id r = userId) (note_users w)"
    by (rule filter_cong [OF refl]) (simp add: a b)
  have m1: "map (\<lambda>x. if nu_id x = nu_id e then f x else x) (note_users w)
            = amend_participant noteId userId f (note_users w)"
    unfolding amend_participant_def by (rule map_cong [OF refl]) (simp add: a b)
  show ?thesis
    using ok e participant_rows [OF uniq, of noteId userId]
    by (simp add: update_user_single_ok f1 m1 single_def)
qed

lemma insert_user_ok:
  assumes "faults w = []" "nu_id row \<notin> set (map nu_id (note_users w))"
    "note_id row \<in> set (map n_id (notes_tbl w))"
  shows "insert_user row w = (Inr row, w\<lparr>note_users := note_users w @ [row]\<rparr>)"
  using assms by (simp add: insert_user_def next_fault_none)

lemma join_new:
  assumes "noteId \<noteq> []" "userId \<noteq> []" "faults w = []" "one_row_per_participant w"
    and "participant w noteId userId = None"
    and "gen_id \<notin> set (map nu_id (note_users w))" "noteId \<in> set (map n_id (notes_tbl w))"
  shows "joinNote now gen_id noteId userId new_username new_role w
         = (Inr \<lparr>nu_id = gen_id, note_id = noteId, user_id = userId, username = new_username,
                  role = new_role, joined_at = now, can_edit = (new_role = Host),
                  permission_status = (if new_role = Host then Granted else NoneStatus),
                  permission_requested_at = None\<rparr>,
            w\<lparr>note_users := note_users w @
                 [\<lparr>nu_id = gen_id, note_id = noteId, user_id = userId, username = new_username,
                   role = new_role, joined_at = now, can_edit = (new_role = Host),
                   permission_status = (if new_role = Host then Granted else NoneStatus),
                   permission_requested_at = None\<rparr>]\<rparr>)"
  using assms by (simp add: joinNote_def select_participant insert_user_ok)

lemma join_existing:
  assumes "noteId \<noteq> []" "userId \<noteq> []" "faults w = []" "one_row_per_participant w"
    and "primary_keys_distinct w" and "participant w noteId userId = Some e"
  shows "joinNote now gen_id noteId userId new_username new_role w
         = (Inr (e\<lparr>username := new_username, role := new_role, joined_at := now\<rparr>),
            w\<lparr>note_users := amend_participant noteId userId
                 (\<lambda>r. r\<lparr>username := new_username, role := new_role, joined_at := now\<rparr>)
                 (note_users w)\<rparr>)"
  using assms by (simp add: joinNote_def select_participant update_by_id)

text \<open>
  What \<open>joinNote\<close> does when the store answers, for identifiers that are not empty,
  distinct primary keys and at most one record per participant: when the participant has
  no record in the session (and the session exists and the generated key is new), it
  appends one record, with the edit flag unset and the status none for a guest, and the
  edit flag set and the status granted for a host. When the participant has a record, it
  sets the name, the role and the join time of that record, adds no record and leaves
  every edit flag, status and request time as it was.
\<close>

lemma joinNote_upsert:
  assumes ids: "noteId \<noteq> []" "userId \<noteq> []"
    and ok: "faults w = []"
    and uniq: "one_row_per_participant w"
    and pk: "primary_keys_distinct w"
  shows
    "(participant w noteId userId = None
        \<and> gen_id \<notin> set (map nu_id (note_users w)) \<and> noteId \<in> set (map n_id (notes_tbl w)) \<longrightarrow>
        joinNote now gen_id noteId userId new_username new_role w
         = (Inr \<lparr>nu_id = gen_id, note_id = noteId, user_id = userId, username = new_username,
                  role = new_role, joined_at = now, can_edit = (new_role = Host),
                  permission_status = (if new_role = Host then Granted else NoneStatus),
                  permission_requested_at = None\<rparr>,
            w\<lparr>note_users := note_users w @
                 [\<lparr>nu_id = gen_id, note_id = noteId, user_id = userId, username = new_username,
                   role = new_role, joined_at = now, can_edit = (new_role = Host),
                   permission_status = (if new_role = Host then Granted else NoneStatus),
                   permission_requested_at = None\<rparr>]\<rparr>))
     \<and> (\<forall>e. participant w noteId userId = Some e \<longrightarrow>
          joinNote now gen_id noteId userId new_username new_role w
            = (Inr (e\<lparr>username := new_username, role := new_role, joined_at := now\<rparr>),
               w\<lparr>note_users := amend_participant noteId userId
                    (\<lambda>r. r\<lparr>username := new_username, role := new_role, joined_at := now\<rparr>)
                    (note_users w)\<rparr>)
          \<and> length (amend_participant noteId userId
                    (\<lambda>r. r\<lparr>username := new_username, role := new_role, joined_at := now\<rparr>)
                    (note_users w)) = length (note_users w)
          \<and> map (\<lambda>r. (can_edit r, permission_status r, permission_requested_at r))
                (amend_participant noteId userId
                    (\<lambda>r. r\<lparr>username := new_username, role := new_role, joined_at := now\<rparr>)
                    (note_users w))
              = map (\<lambda>r. (can_edit r, permission_status r, permission_requested_at r)) (note_users w))"
  using join_new [OF ids ok uniq, of gen_id now new_username new_role]
    join_existing [OF ids ok uniq pk, of _ now gen_id new_username new_role]
  by (simp add: amend_participant_def)


lemma joinNote_upsert_example:
  "joinNote 7 ''r3'' ''n1'' ''k'' ''park'' Guest example_world
     = (Inr \<lparr>nu_id = ''r3'', note_id = ''n1'', user_id = ''k'', username = ''park'', role = Guest,
             joined_at = 7, can_edit = False, permission_status = NoneStatus,
             permission_requested_at = None\<rparr>,
        example_world\<lparr>note_users := [example_host, example_guest,
           \<lparr>nu_id = ''r3'', note_id = ''n1'', user_id = ''k'', username = ''park'', role = Guest,
             joined_at = 7, can_edit = False, permission_status = NoneStatus,
             permission_requested_at = None\<rparr>]\<rparr>)
   \<and> joinNote 7 ''r3'' ''n1'' ''k'' ''park'' Host example_world
     = (Inr \<lparr>nu_id = ''r3'', note_id = ''n1'', user_id = ''k'', username = ''park'', role = Host,
             joined_at = 7, can_edit = True, permission_status = Granted,
             permission_requested_at = None\<rparr>,
        example_world\<lparr>note_users := [example_host, example_guest,
           \<lparr>nu_id = ''r3'', note_id = ''n1'', user_id = ''k'', username = ''park'', role = Host,
             joined_at = 7, can_edit = True, permission_status = Granted,
             permission_requested_at = None\<rparr>]\<rparr>)
   \<and> joinNote 7 ''r3'' ''n1'' ''g'' ''yi'' Guest pending_world
     = (Inr (pending_guest\<lparr>username := ''yi'', role := Guest, joined_at := 7\<rparr>),
        pending_world\<lparr>note_users :=
          [example_host, pending_guest\<lparr>username := ''yi'', role := Guest, joined_at := 7\<rparr>]\<rparr>)"
proof -
  have h: "''n1'' \<noteq> []" "''k'' \<noteq> []" "faults example_world = []"
    "one_row_per_participant example_world" "primary_keys_distinct example_world"
    by (simp_all add: example_world_def one_row_per_participant_def primary_keys_distinct_def
          example_host_def example_guest_def)
  have new: "participant example_world ''n1'' ''k'' = None"
    "''r3'' \<notin> set (map nu_id (note_users example_world))"
    "''n1'' \<in> set (map n_id (notes_tbl example_world))"
    by (simp_all add: participant_def example_world_def example_host_def example_guest_def
          example_note_def)
  have nu: "note_users example_world = [example_host, example_guest]"
    by (simp add: example_world_def)
  have pk: "primary_keys_distinct pending_world"
    by (simp add: pending_world_def pending_guest_def example_world_def primary_keys_distinct_def
          example_host_def example_guest_def)
  have a: "\<And>f. amend_participant ''n1'' ''g'' f (note_users pending_world)
             = [example_host, f pending_guest]"
    by (simp add: amend_participant_def pending_world_def pending_guest_def example_host_def
          example_guest_def)
  note j1 = joinNote_upsert [OF h(1) h(2) h(3) h(4) h(5), of "''r3''" 7 "''park''" Guest,
      THEN conjunct1, THEN mp, OF conjI [OF new(1) conjI [OF new(2) new(3)]]]
  note j2 = joinNote_upsert [OF h(1) h(2) h(3) h(4) h(5), of "''r3''" 7 "''park''" Host,
      THEN conjunct1, THEN mp, OF conjI [OF new(1) conjI [OF new(2) new(3)]]]
  note j3 = joinNote_upsert [OF pending_facts(1) pending_facts(2) pending_facts(4)
      pending_facts(5) pk, of "''r3''" 7 "''yi''" Guest,
      THEN conjunct2, THEN spec, THEN mp, OF pending_facts(6), THEN conjunct1]
  show ?thesis
    using j1 j2 j3 by (simp add: a nu)
qed

lemma participant_None_key:
  "participant w noteId userId = None \<Longrightarrow>
   (noteId, userId) \<notin> set (map (\<lambda>r. (note_id r, user_id r)) (note_users w))"
  by (auto simp: participant_def find_None_iff)

lemma joinNote_keeps_one_row_per_participant:
  assumes ok: "faults w = []" and uniq: "one_row_per_participant w"
    and pk: "primary_keys_distinct w"
  shows "one_row_per_participant (snd (joinNote now gen_id noteId userId new_username new_role w))"
proof (cases "noteId = [] \<or> userId = []")
  case True
  then show ?thesis using uniq by (auto simp: joinNote_def)
next
  case False
  then have ids: "noteId \<noteq> []" "userId \<noteq> []" by simp_all
  show ?thesis
  proof (cases "participant w noteId userId")
    case None
    have "(noteId, userId) \<notin> set (map (\<lambda>r. (note_id r, user_id r)) (note_users w))"
      using None by (rule participant_None_key)
    then show ?thesis
      using ids ok uniq None
      by (simp add: joinNote_def select_participant insert_user_def next_fault_none
            one_row_per_participant_def)
  next
    case (Some e)
    show ?thesis
      using join_existing [OF ids ok uniq pk Some, of now gen_id new_username new_role]
        one_row_amend [of "\<lambda>r. r\<lparr>username := new_username, role := new_role, joined_at := now\<rparr>"
          w noteId userId] uniq
      by simp
  qed
qed

lemma select_user_single_fails:
  "faults w = True # fs \<Longrightarrow> select_user_single P w = (Inl unavailable, w\<lparr>faults := fs\<rparr>)"
  by (simp add: select_user_single_def next_fault_def)

text \<open>
  When the lookup of \<open>joinNote\<close> does not reach the database, the insert runs whether
  the participant has a record or not: the lookup's \<^verbatim>\<open>error\<close> is not read.
\<close>

lemma join_lookup_fails:
  assumes "noteId \<noteq> []" "userId \<noteq> []" "faults w = [True]"
    and "gen_id \<notin> set (map nu_id (note_users w))" "noteId \<in> set (map n_id (notes_tbl w))"
  shows "joinNote now gen_id noteId userId new_username new_role w
         = (Inr \<lparr>nu_id = gen_id, note_id = noteId, user_id = userId, username = new_username,
                  role = new_role, joined_at = now, can_edit = (new_role = Host),
                  permission_status = (if new_role = Host then Granted else NoneStatus),
                  permission_requested_at = None\<rparr>,
            w\<lparr>faults := [], note_users := note_users w @
                 [\<lparr>nu_id = gen_id, note_id = noteId, user_id = userId, username = new_username,
                   role = new_role, joined_at = now, can_edit = (new_role = Host),
                   permission_status = (if new_role = Host then Granted else NoneStatus),
                   permission_requested_at = None\<rparr>]\<rparr>)"
  using assms
  by (simp add: joinNote_def select_user_single_fails insert_user_def next_fault_def)

text \<open>
  Claim C8 says that \<open>joinNote\<close>, when a record exists for the session and the
  participant, updates that record rather than creating a duplicate. In the example
  session the guest \<open>g\<close> has a record. When the lookup of \<open>joinNote\<close> fails to reach
  the database and the insert reaches it, the call returns a new record for \<open>g\<close> and the
  session holds two records for that participant. (\<^verbatim>\<open>getNoteUser\<close> runs the same
  query and tells \<^verbatim>\<open>PGRST116\<close> from every other error, which it throws.)
\<close>

theorem joinNote_duplicates_after_failed_lookup:
  "participant (example_world\<lparr>faults := [True]\<rparr>) ''n1'' ''g'' = Some example_guest
   \<and> joinNote 7 ''r3'' ''n1'' ''g'' ''yi'' Guest (example_world\<lparr>faults := [True]\<rparr>)
     = (Inr \<lparr>nu_id = ''r3'', note_id = ''n1'', user_id = ''g'', username = ''yi'', role = Guest,
             joined_at = 7, can_edit = False, permission_status = NoneStatus,
             permission_requested_at = None\<rparr>,
        example_world\<lparr>note_users := [example_host, example_guest,
           \<lparr>nu_id = ''r3'', note_id = ''n1'', user_id = ''g'', username = ''yi'', role = Guest,
             joined_at = 7, can_edit = False, permission_status = NoneStatus,
             permission_requested_at = None\<rparr>]\<rparr>)
   \<and> map user_id (filter (\<lambda>r. note_id r = ''n1'' \<and> user_id r = ''g'')
        (note_users (snd (joinNote 7 ''r3'' ''n1'' ''g'' ''yi'' Guest
           (example_world\<lparr>faults := [True]\<rparr>))))) = [''g'', ''g'']"
  by (simp add: joinNote_def select_user_single_def insert_user_def next_fault_def single_def
        participant_def example_world_def example_host_def example_guest_def example_note_def)

subsection \<open>Taking the lock\<close>

lemma update_note_single_ok:
  "faults w = [] \<Longrightarrow> update_note_single P upd w =
     (case single (map upd (filter P (notes_tbl w))) of
        Inl e \<Rightarrow> (Inl e, w)
      | Inr r \<Rightarrow> (Inr r, w\<lparr>notes_tbl := map (\<lambda>x. if P x then upd x else x) (notes_tbl w)\<rparr>))"
  by (simp add: update_note_single_def next_fault_none)

lemma setNoteLock_ok:
  assumes "noteId \<noteq> []" "faults w = []" "filter (\<lambda>n. n_id n = noteId) (notes_tbl w) = [n]"
  shows "setNoteLock now noteId l b w
         = (Inr (n\<lparr>is_locked := l, locked_by := b, last_modified := now\<rparr>),
            w\<lparr>notes_tbl := map (\<lambda>x. if n_id x = noteId
                                    then x\<lparr>is_locked := l, locked_by := b, last_modified := now\<rparr>
                                    else x) (notes_tbl w)\<rparr>)"
  using assms by (simp add: setNoteLock_def update_note_single_ok single_def)

lemma setNoteLock_fails:
  assumes "noteId \<noteq> []" "faults w = True # fs"
  shows "setNoteLock now noteId l b w = (Inl (StoreError unavailable), w\<lparr>faults := fs\<rparr>)"
  using assms by (simp add: setNoteLock_def update_note_single_def next_fault_def)

text \<open>
  Claim C5, amended. For a session that exists: \<open>requestLock\<close> by a guest is refused and
  changes nothing. By a host it succeeds without a store call when the hook's copy of the
  lock already shows the caller as the holder; otherwise it writes the caller as the
  holder into the note, whoever held the lock before, and succeeds whenever that store
  call succeeds. When the store call fails the lock columns stay as they were and the
  result is \<open>False\<close>. No case fails because another participant holds the lock.
\<close>

theorem requestLock_outcomes:
  assumes id: "noteId \<noteq> []"
    and session: "filter (\<lambda>n. n_id n = noteId) (notes_tbl w) = [n]"
  shows
    "requestLock now noteId userId Guest h w = (False, h\<lparr>lock_error := Some GuestCannotLock\<rparr>, w)
     \<and> (isLocked h \<and> lockedBy h = Some userId \<longrightarrow>
          requestLock now noteId userId Host h w = (True, h, w))
     \<and> (\<not> (isLocked h \<and> lockedBy h = Some userId) \<and> faults w = [] \<longrightarrow>
          requestLock now noteId userId Host h w
            = (True, h\<lparr>isLocked := True, lockedBy := Some userId, lock_error := None\<rparr>,
               w\<lparr>notes_tbl := map (\<lambda>x. if n_id x = noteId
                       then x\<lparr>is_locked := True, locked_by := Some userId, last_modified := now\<rparr>
                       else x) (notes_tbl w)\<rparr>))
     \<and> (\<forall>fs. \<not> (isLocked h \<and> lockedBy h = Some userId) \<and> faults w = True # fs \<longrightarrow>
          requestLock now noteId userId Host h w
            = (False, h\<lparr>lock_error := Some (StoreError unavailable)\<rparr>, w\<lparr>faults := fs\<rparr>))"
  using setNoteLock_ok [OF id _ session, of now True "Some userId"]
    setNoteLock_fails [OF id, of w _ now True "Some userId"]
  by (auto simp: requestLock_def)

theorem requestLock_outcomes_witness:
  "requestLock 5 ''n1'' ''h'' Host \<lparr>isLocked = True, lockedBy = Some ''a'', lock_error = None\<rparr>
      locked_world
     = (True, \<lparr>isLocked = True, lockedBy = Some ''h'', lock_error = None\<rparr>,
        locked_world\<lparr>notes_tbl :=
          [locked_note\<lparr>is_locked := True, locked_by := Some ''h'', last_modified := 5\<rparr>]\<rparr>)
   \<and> requestLock 5 ''n1'' ''a'' Host \<lparr>isLocked = True, lockedBy = Some ''a'', lock_error = None\<rparr>
        locked_world
     = (True, \<lparr>isLocked = True, lockedBy = Some ''a'', lock_error = None\<rparr>, locked_world)
   \<and> requestLock 5 ''n1'' ''g'' Guest \<lparr>isLocked = False, lockedBy = None, lock_error = None\<rparr>
        locked_world
     = (False, \<lparr>isLocked = False, lockedBy = None, lock_error = Some GuestCannotLock\<rparr>,
        locked_world)"
proof -
  have s: "filter (\<lambda>n. n_id n = ''n1'') (notes_tbl locked_world) = [locked_note]"
    and f: "faults locked_world = []" and nt: "notes_tbl locked_world = [locked_note]"
    and i: "n_id locked_note = ''n1''"
    by (simp_all add: locked_world_def locked_note_def example_world_def example_note_def)
  have id: "''n1'' \<noteq> []" by simp
  show ?thesis
    using requestLock_outcomes [OF id s, of 5 "''h''"
        "\<lparr>isLocked = True, lockedBy = Some ''a'', lock_error = None\<rparr>"]
      requestLock_outcomes [OF id s, of 5 "''a''"
        "\<lparr>isLocked = True, lockedBy = Some ''a'', lock_error = None\<rparr>"]
      requestLock_outcomes [OF id s, of 5 "''g''"
        "\<lparr>isLocked = False, lockedBy = None, lock_error = None\<rparr>"]
    by (simp add: f nt i)
qed

text \<open>
  Claim C5 as stated asks for a failure that leaves the lock unchanged when another
  participant holds it. With the lock held by \<open>a\<close>, in the store and in the hook's
  copy, the host \<open>h\<close> takes it.
\<close>

theorem lock_taken_from_holder_counterexample:
  "locked_by locked_note = Some ''a''
   \<and> requestLock 5 ''n1'' ''h'' Host \<lparr>isLocked = True, lockedBy = Some ''a'', lock_error = None\<rparr>
        locked_world
     = (True, \<lparr>isLocked = True, lockedBy = Some ''h'', lock_error = None\<rparr>,
        locked_world\<lparr>notes_tbl :=
          [locked_note\<lparr>is_locked := True, locked_by := Some ''h'', last_modified := 5\<rparr>]\<rparr>)"
  by (simp add: requestLock_def setNoteLock_def update_note_single_def next_fault_def single_def
        locked_world_def locked_note_def example_world_def example_note_def)

subsection \<open>Falling back to polling\<close>

lemma failure_step:
  assumes "s = CHANNEL_ERROR \<or> s = TIMED_OUT"
  shows "reconnectAttempts (onSubscribeStatus s a)
           = (if reconnectAttempts a < 3 then reconnectAttempts a + 1 else reconnectAttempts a)"
    and "pollingTimer (onSubscribeStatus s a)
           = (if reconnectAttempts a < 3 then pollingTimer a else Some 3000)"
  using assms
  by (auto simp: onSubscribeStatus_def Let_def MAX_RECONNECT_ATTEMPTS_def startPolling_def
        POLLING_INTERVAL_def)

lemma failures_fold:
  assumes "\<forall>s \<in> set statuses. s = CHANNEL_ERROR \<or> s = TIMED_OUT" "reconnectAttempts a \<le> 3"
  shows "reconnectAttempts (fold onSubscribeStatus statuses a)
           = min 3 (reconnectAttempts a + length statuses)
         \<and> pollingTimer (fold onSubscribeStatus statuses a)
           = (if 3 < reconnectAttempts a + length statuses then Some 3000 else pollingTimer a)"
  using assms
proof (induction statuses arbitrary: a)
  case Nil
  then show ?case by simp
next
  case (Cons s statuses)
  have s: "s = CHANNEL_ERROR \<or> s = TIMED_OUT" using Cons.prems(1) by simp
  have le: "reconnectAttempts (onSubscribeStatus s a) \<le> 3"
    using Cons.prems(2) by (simp add: failure_step(1) [OF s])
  have rest: "\<forall>s \<in> set statuses. s = CHANNEL_ERROR \<or> s = TIMED_OUT"
    using Cons.prems(1) by simp
  show ?case
    using Cons.IH [OF rest le] Cons.prems(2)
    by (auto simp: failure_step [OF s])
qed

lemma fetch_ok:
  assumes "faults w = []" "filter (\<lambda>n. n_id n = noteId) (notes_tbl w) = [n]" "\<not> isLocalChange a"
  shows "contentJson (fst (fetchNoteContent noteId a w)) = content_json n"
  using assms
  by (auto simp: fetchNoteContent_def select_note_single_def next_fault_none single_def
        isContentJsonEqual_def Let_def)

lemma fetch_local:
  "isLocalChange a \<Longrightarrow> contentJson (fst (fetchNoteContent noteId a w)) = contentJson a"
  by (simp add: fetchNoteContent_def split: prod.splits sum.splits)

text \<open>
  Claim C9, amended. Starting from a subscription with no failure counted and no polling
  timer, consecutive failure reports (channel error or timeout) start the polling timer
  at the fourth report: the first three only count. The timer's interval is 3000
  milliseconds. A tick of the timer whose read of the note succeeds, while no local change
  is flagged, leaves the local content equal to the stored content; while a local change
  is flagged, a tick leaves the local content as it is.
\<close>

theorem polling_fallback:
  "((\<forall>s \<in> set statuses. s = CHANNEL_ERROR \<or> s = TIMED_OUT)
      \<and> reconnectAttempts a = 0 \<and> pollingTimer a = None \<longrightarrow>
      pollingTimer (onSubscribeStatuses statuses a)
        = (if MAX_RECONNECT_ATTEMPTS < length statuses then Some 3000 else None))
   \<and> (faults w = [] \<and> filter (\<lambda>n. n_id n = noteId) (notes_tbl w) = [n] \<and> \<not> isLocalChange b \<longrightarrow>
        contentJson (fst (fetchNoteContent noteId b w)) = content_json n)
   \<and> (isLocalChange b \<longrightarrow> contentJson (fst (fetchNoteContent noteId b w)) = contentJson b)"
  using failures_fold [of statuses a] fetch_ok [of w noteId n b] fetch_local [of b noteId w]
  by (auto simp: onSubscribeStatuses_def MAX_RECONNECT_ATTEMPTS_def)

theorem polling_fallback_witness:
  "pollingTimer (onSubscribeStatuses [CHANNEL_ERROR, TIMED_OUT, CHANNEL_ERROR, CHANNEL_ERROR] mounted)
     = Some 3000
   \<and> contentJson (fst (fetchNoteContent ''n1'' mounted
        (example_world\<lparr>notes_tbl := [example_note\<lparr>content_json := Some (Doc [])\<rparr>]\<rparr>)))
     = Some (Doc [])"
proof -
  have a: "(\<forall>s \<in> set [CHANNEL_ERROR, TIMED_OUT, CHANNEL_ERROR, CHANNEL_ERROR].
              s = CHANNEL_ERROR \<or> s = TIMED_OUT)
           \<and> reconnectAttempts mounted = 0 \<and> pollingTimer mounted = None"
    by (simp add: mounted_def)
  have b: "faults (example_world\<lparr>notes_tbl := [example_note\<lparr>content_json := Some (Doc [])\<rparr>]\<rparr>) = []
      \<and> filter (\<lambda>n. n_id n = ''n1'')
          (notes_tbl (example_world\<lparr>notes_tbl := [example_note\<lparr>content_json := Some (Doc [])\<rparr>]\<rparr>))
        = [example_note\<lparr>content_json := Some (Doc [])\<rparr>]
      \<and> \<not> isLocalChange mounted"
    by (simp add: example_world_def example_note_def mounted_def)
  note p = polling_fallback [of "[CHANNEL_ERROR, TIMED_OUT, CHANNEL_ERROR, CHANNEL_ERROR]" mounted
      "example_world\<lparr>notes_tbl := [example_note\<lparr>content_json := Some (Doc [])\<rparr>]\<rparr>" "''n1''"
      "example_note\<lparr>content_json := Some (Doc [])\<rparr>" mounted]
  show ?thesis
    using p [THEN conjunct1, THEN mp, OF a] p [THEN conjunct2, THEN conjunct1, THEN mp, OF b]
    by (simp add: MAX_RECONNECT_ATTEMPTS_def)
qed

text \<open>
  Claim C9 as stated has the polling start with the third consecutive failure. After three
  failure reports no timer runs. And after a local edit a tick does not take over the
  stored content.
\<close>

theorem no_polling_after_three_failures_counterexample:
  "pollingTimer (onSubscribeStatuses [CHANNEL_ERROR, CHANNEL_ERROR, CHANNEL_ERROR] mounted) = None
   \<and> pollingTimer (onSubscribeStatuses [TIMED_OUT, TIMED_OUT, TIMED_OUT] mounted) = None
   \<and> contentJson (fst (fetchNoteContent ''n1''
         (setContentJson (Doc [TiptapNode ''paragraph'' (Some []) None]) mounted)
         (example_world\<lparr>notes_tbl := [example_note\<lparr>content_json := Some (Doc [])\<rparr>]\<rparr>)))
       = Some (Doc [TiptapNode ''paragraph'' (Some []) None])"
  by (simp add: onSubscribeStatuses_def onSubscribeStatus_def Let_def MAX_RECONNECT_ATTEMPTS_def
        mounted_def fetchNoteContent_def select_note_single_def next_fault_def single_def
        setContentJson_def example_world_def example_note_def)

subsection \<open>The host's record\<close>

declare createNote_loop.simps [simp del]

lemma select_user_single_result:
  assumes "select_user_single P w = (res, w1)"
  shows "note_users w1 = note_users w" and "res = Inr x \<Longrightarrow> filter P (note_users w) = [x]"
proof -
  show "note_users w1 = note_users w"
    using assms
    by (auto simp: select_user_single_def next_fault_def split: list.splits bool.splits)
  assume "res = Inr x"
  then show "filter P (note_users w) = [x]"
    using assms
    by (auto simp: select_user_single_def next_fault_def single_def
          split: list.splits bool.splits)
qed

lemma update_user_single_result:
  assumes "update_user_single P upd w = (res, w1)"
  shows "note_users w1 = note_users w
         \<or> note_users w1 = map (\<lambda>x. if P x then upd x else x) (note_users w)"
  using assms
  by (auto simp: update_user_single_def next_fault_def split: list.splits bool.splits sum.splits)

lemma insert_user_result:
  assumes "insert_user row w = (res, w1)"
  shows "notes_tbl w1 = notes_tbl w"
    and "(\<exists>e. res = Inl e) \<and> note_users w1 = note_users w
         \<or> res = Inr row \<and> note_users w1 = note_users w @ [row]"
  using assms
  by (auto simp: insert_user_def next_fault_def split: list.splits bool.splits if_splits)

lemma insert_note_result:
  assumes "insert_note row w = (res, w1)"
  shows "note_users w1 = note_users w" and "res = Inr data \<Longrightarrow> data = row"
  using assms
  by (auto simp: insert_note_def next_fault_def split: list.splits bool.splits if_splits)

lemma update_users_result:
  assumes "update_users P upd w = (res, w1)"
  shows "note_users w1 = note_users w
         \<or> note_users w1 = map (\<lambda>x. if P x then upd x else x) (note_users w)"
  using assms
  by (auto simp: update_users_def next_fault_def split: list.splits bool.splits)

lemma kept_refl: "host_fields_kept rows rows"
  by (simp add: host_fields_kept_def)

lemma kept_append: "host_fields_kept rows (rows @ extra)"
  by (simp add: host_fields_kept_def nth_append)

lemma kept_map:
  assumes "\<And>x. x \<in> set rows \<Longrightarrow> role x = Host \<Longrightarrow> permission_status x \<noteq> Requested
             \<Longrightarrow> permission_status x \<noteq> Denied
             \<Longrightarrow> nu_id (f x) = nu_id x \<and> can_edit (f x) = can_edit x
                 \<and> permission_status (f x) = permission_status x"
  shows "host_fields_kept rows (map f rows)"
  using assms by (simp add: host_fields_kept_def)

lemma only_row:
  assumes "filter P rows = [t]" "x \<in> set rows" "P x"
  shows "x = t"
proof -
  have "x \<in> set (filter P rows)" using assms(2,3) by simp
  then show ?thesis using assms(1) by simp
qed

lemma kept_guarded_update:
  assumes sel: "filter P rows = [t]"
    and guard: "role t \<noteq> Host \<or> permission_status t = Requested \<or> permission_status t = Denied"
  shows "host_fields_kept rows (map (\<lambda>x. if P x then upd x else x) rows)"
proof (rule kept_map)
  fix x
  assume x: "x \<in> set rows" and h: "role x = Host" "permission_status x \<noteq> Requested"
    "permission_status x \<noteq> Denied"
  have "\<not> P x"
    using only_row [OF sel x] guard h by auto
  then show "nu_id (if P x then upd x else x) = nu_id x
      \<and> can_edit (if P x then upd x else x) = can_edit x
      \<and> permission_status (if P x then upd x else x) = permission_status x"
    by simp
qed

lemma toggle_keeps_host:
  "host_fields_kept (note_users w)
     (note_users (snd (updateUserEditPermission noteId targetUserId canEdit requesterId w)))"
proof -
  let ?T = "\<lambda>r. note_id r = noteId \<and> user_id r = targetUserId"
  obtain r1 w1 where s1: "select_user_single
      (\<lambda>r. note_id r = noteId \<and> user_id r = requesterId \<and> role r = Host) w = (r1, w1)"
    by (cases "select_user_single
      (\<lambda>r. note_id r = noteId \<and> user_id r = requesterId \<and> role r = Host) w")
  obtain r2 w2 where s2: "select_user_single ?T w1 = (r2, w2)"
    by (cases "select_user_single ?T w1")
  obtain r3 w3 where s3: "update_user_single ?T (\<lambda>r. r\<lparr>can_edit := canEdit\<rparr>) w2 = (r3, w3)"
    by (cases "update_user_single ?T (\<lambda>r. r\<lparr>can_edit := canEdit\<rparr>) w2")
  note u1 = select_user_single_result(1) [OF s1]
  note u2 = select_user_single_result(1) [OF s2]
  have "snd (updateUserEditPermission noteId targetUserId canEdit requesterId w) \<in> {w, w1, w2}
        \<or> (\<exists>t. r2 = Inr t \<and> role t \<noteq> Host
              \<and> snd (updateUserEditPermission noteId targetUserId canEdit requesterId w) = w3)"
    by (simp add: updateUserEditPermission_def s1 s2 s3 split: sum.splits)
  then show ?thesis
  proof
    assume "snd (updateUserEditPermission noteId targetUserId canEdit requesterId w) \<in> {w, w1, w2}"
    then show ?thesis using u1 u2 by (auto simp: kept_refl)
  next
    assume "\<exists>t. r2 = Inr t \<and> role t \<noteq> Host
              \<and> snd (updateUserEditPermission noteId targetUserId canEdit requesterId w) = w3"
    then obtain t where t: "r2 = Inr t" "role t \<noteq> Host"
      and w3: "snd (updateUserEditPermission noteId targetUserId canEdit requesterId w) = w3"
      by blast
    have sel: "filter ?T (note_users w) = [t]"
      using select_user_single_result(2) [OF s2 t(1)] u1 by simp
    show ?thesis
      using update_user_single_result [OF s3] kept_guarded_update [OF sel, of "\<lambda>r. r\<lparr>can_edit := canEdit\<rparr>"]
        t(2) u1 u2 w3
      by (auto simp: kept_refl)
  qed
qed

lemma request_keeps_host:
  "host_fields_kept (note_users w)
     (note_users (snd (requestEditPermission now stamp noteId userId w)))"
proof -
  let ?T = "\<lambda>r. note_id r = noteId \<and> user_id r = userId"
  let ?U = "\<lambda>r. r\<lparr>permission_status := Requested, permission_requested_at := Some stamp\<rparr>"
  obtain r1 w1 where s1: "select_user_single ?T w = (r1, w1)"
    by (cases "select_user_single ?T w")
  obtain r2 w2 where s2: "update_user_single ?T ?U w1 = (r2, w2)"
    by (cases "update_user_single ?T ?U w1")
  note u1 = select_user_single_result(1) [OF s1]
  have "snd (requestEditPermission now stamp noteId userId w) \<in> {w, w1}
        \<or> (\<exists>t. r1 = Inr t \<and> role t \<noteq> Host
              \<and> snd (requestEditPermission now stamp noteId userId w) = w2)"
    by (simp add: requestEditPermission_def s1 s2 Let_def split: sum.splits option.splits)
  then show ?thesis
  proof
    assume "snd (requestEditPermission now stamp noteId userId w) \<in> {w, w1}"
    then show ?thesis using u1 by (auto simp: kept_refl)
  next
    assume "\<exists>t. r1 = Inr t \<and> role t \<noteq> Host
              \<and> snd (requestEditPermission now stamp noteId userId w) = w2"
    then obtain t where t: "r1 = Inr t" "role t \<noteq> Host"
      and w2: "snd (requestEditPermission now stamp noteId userId w) = w2"
      by blast
    have sel: "filter ?T (note_users w) = [t]"
      using select_user_single_result(2) [OF s1 t(1)] .
    show ?thesis
      using update_user_single_result [OF s2] kept_guarded_update [OF sel, of ?U] t(2) u1 w2
      by (auto simp: kept_refl)
  qed
qed

lemma guarded_update_keeps:
  assumes s2: "select_user_single T w1 = (Inr t, w2)"
    and guard: "role t \<noteq> Host \<or> permission_status t = Requested \<or> permission_status t = Denied"
    and s3: "update_user_single T U w2 = (r3, w3)"
  shows "host_fields_kept (note_users w1) (note_users w3)"
proof -
  have u: "note_users w2 = note_users w1"
    using select_user_single_result(1) [OF s2] .
  have sel: "filter T (note_users w1) = [t]"
    using select_user_single_result(2) [OF s2 refl] .
  show ?thesis
    using update_user_single_result [OF s3] kept_guarded_update [OF sel guard, of U] u
    by (auto simp: kept_refl)
qed

lemma respond_keeps_host:
  "host_fields_kept (note_users w)
     (note_users (snd (respondToEditRequest noteId targetUserId approved hostUserId w)))"
proof -
  let ?T = "\<lambda>r. note_id r = noteId \<and> user_id r = targetUserId"
  let ?A = "\<lambda>r. r\<lparr>can_edit := True, permission_status := Granted\<rparr>"
  let ?D = "\<lambda>r. r\<lparr>permission_status := Denied\<rparr>"
  obtain r1 w1 where s1: "select_user_single
      (\<lambda>r. note_id r = noteId \<and> user_id r = hostUserId \<and> role r = Host) w = (r1, w1)"
    by (cases "select_user_single
      (\<lambda>r. note_id r = noteId \<and> user_id r = hostUserId \<and> role r = Host) w")
  obtain r2 w2 where s2: "select_user_single ?T w1 = (r2, w2)"
    by (cases "select_user_single ?T w1")
  obtain ra wa where sa: "update_user_single ?T ?A w2 = (ra, wa)"
    by (cases "update_user_single ?T ?A w2")
  obtain rd wd where sd: "update_user_single ?T ?D w2 = (rd, wd)"
    by (cases "update_user_single ?T ?D w2")
  note u1 = select_user_single_result(1) [OF s1]
  note u2 = select_user_single_result(1) [OF s2]
  have "snd (respondToEditRequest noteId targetUserId approved hostUserId w) \<in> {w, w1, w2}
        \<or> (\<exists>t. r2 = Inr t \<and> permission_status t = Requested
              \<and> snd (respondToEditRequest noteId targetUserId approved hostUserId w) \<in> {wa, wd})"
    by (simp add: respondToEditRequest_def s1 s2 sa sd Let_def split: sum.splits)
  then show ?thesis
  proof
    assume "snd (respondToEditRequest noteId targetUserId approved hostUserId w) \<in> {w, w1, w2}"
    then show ?thesis using u1 u2 by (auto simp: kept_refl)
  next
    assume "\<exists>t. r2 = Inr t \<and> permission_status t = Requested
              \<and> snd (respondToEditRequest noteId targetUserId approved hostUserId w) \<in> {wa, wd}"
    then obtain t where t: "r2 = Inr t" "permission_status t = Requested"
      and w3: "snd (respondToEditRequest noteId targetUserId approved hostUserId w) \<in> {wa, wd}"
      by blast
    have g: "role t \<noteq> Host \<or> permission_status t = Requested \<or> permission_status t = Denied"
      using t(2) by simp
    show ?thesis
      using guarded_update_keeps [OF s2 [unfolded t(1)] g sa]
        guarded_update_keeps [OF s2 [unfolded t(1)] g sd] w3 u1
      by auto
  qed
qed

lemma cleanup_keeps_host:
  "host_fields_kept (note_users w) (note_users (snd (cleanupExpiredRequests now noteId w)))"
proof -
  let ?P = "\<lambda>r. note_id r = noteId \<and> permission_status r \<in> set [Requested, Denied]
              \<and> (case permission_requested_at r of None \<Rightarrow> False
                  | Some t \<Rightarrow> t < now - EXPIRY_HOURS * 60 * 60 * 1000)"
  let ?U = "\<lambda>r. r\<lparr>permission_status := NoneStatus, permission_requested_at := None\<rparr>"
  obtain r1 w1 where s1: "update_users ?P ?U w = (r1, w1)"
    by (cases "update_users ?P ?U w")
  have k: "host_fields_kept (note_users w) (map (\<lambda>x. if ?P x then ?U x else x) (note_users w))"
    by (rule kept_map) auto
  have "note_users (snd (cleanupExpiredRequests now noteId w)) = note_users w
        \<or> note_users (snd (cleanupExpiredRequests now noteId w)) = note_users w1"
    unfolding cleanupExpiredRequests_def Let_def s1 by (simp split: option.splits)
  then show ?thesis
    using update_users_result [OF s1] k by (auto simp: kept_refl)
qed

lemma join_keeps_host:
  "host_fields_kept (note_users w)
     (note_users (snd (joinNote now gen_id noteId userId new_username new_role w)))"
proof -
  let ?T = "\<lambda>r. note_id r = noteId \<and> user_id r = userId"
  let ?U = "\<lambda>r. r\<lparr>username := new_username, role := new_role, joined_at := now\<rparr>"
  let ?row = "\<lparr>nu_id = gen_id, note_id = noteId, user_id = userId, username = new_username,
               role = new_role, joined_at = now, can_edit = (new_role = Host),
               permission_status = (if new_role = Host then Granted else NoneStatus),
               permission_requested_at = None\<rparr>"
  obtain r1 w1 where s1: "select_user_single ?T w = (r1, w1)"
    by (cases "select_user_single ?T w")
  obtain r3 w3 where s3: "insert_user ?row w1 = (r3, w3)"
    by (cases "insert_user ?row w1")
  note u1 = select_user_single_result(1) [OF s1]
  show ?thesis
  proof (cases r1)
    case (Inl e)
    have "snd (joinNote now gen_id noteId userId new_username new_role w) \<in> {w, w3}"
      by (simp add: joinNote_def s1 s3 Inl split: sum.splits)
    then show ?thesis
      using insert_user_result(2) [OF s3] u1 by (auto simp: kept_refl kept_append)
  next
    case (Inr existing)
    obtain r2 w2 where s2: "update_user_single (\<lambda>r. nu_id r = nu_id existing) ?U w1 = (r2, w2)"
      by (cases "update_user_single (\<lambda>r. nu_id r = nu_id existing) ?U w1")
    have k: "host_fields_kept (note_users w)
               (map (\<lambda>x. if nu_id x = nu_id existing then ?U x else x) (note_users w))"
      by (rule kept_map) auto
    have "snd (joinNote now gen_id noteId userId new_username new_role w) \<in> {w, w2}"
      by (simp add: joinNote_def s1 s2 Inr split: sum.splits)
    then show ?thesis
      using update_user_single_result [OF s2] u1 k by (auto simp: kept_refl)
  qed
qed

text \<open>
  What \<open>createNote\<close> does to \<^verbatim>\<open>note_users\<close>: nothing, or one more record, the
  host's, with the edit flag set and the status none (the column's default; the insert
  does not name the column).
\<close>

lemma createNote_loop_users:
  "note_users (snd (createNote_loop attempts now rnd new_title hostPassword guestPassword w))
     = note_users w
   \<or> (\<exists>data pid row.
        fst (createNote_loop attempts now rnd new_title hostPassword guestPassword w)
          = Inr (data, pid)
        \<and> note_users (snd (createNote_loop attempts now rnd new_title hostPassword guestPassword w))
          = note_users w @ [row]
        \<and> note_id row = n_id data \<and> user_id row = pid \<and> role row = Host \<and> can_edit row
        \<and> permission_status row = NoneStatus)"
proof (induction attempts now rnd new_title hostPassword guestPassword w
       rule: createNote_loop.induct)
  case (1 attempts now rnd new_title hostPassword guestPassword w)
  let ?note = "\<lparr>n_id = noteIds rnd attempts, note_code = noteCodes rnd attempts,
                 title = new_title, content = [], content_json = None,
                 host_password = hostPassword, guest_password = guestPassword,
                 is_locked = False, locked_by = None, created_at = now, last_modified = now\<rparr>"
  show ?case
  proof (cases "attempts < maxAttempts")
    case False
    then show ?thesis by (simp add: createNote_loop.simps)
  next
    case True
    obtain r1 w1 where s1: "insert_note ?note w = (r1, w1)"
      by (cases "insert_note ?note w")
    note u1 = insert_note_result(1) [OF s1]
    show ?thesis
    proof (cases r1)
      case (Inr data)
      let ?row = "\<lparr>nu_id = hostRowId rnd, note_id = n_id data, user_id = participantId rnd,
                      username = host_username, role = Host, joined_at = now, can_edit = True,
                      permission_status = NoneStatus, permission_requested_at = None\<rparr>"
      obtain r2 w2 where s2: "insert_user ?row w1 = (r2, w2)"
        by (cases "insert_user ?row w1")
      have res: "createNote_loop attempts now rnd new_title hostPassword guestPassword w
            = (case r2 of
                 Inl userError \<Rightarrow> (Inr (data, participantId rnd),
                     w2\<lparr>console := console w2 @ [HostRegistrationFailed userError]\<rparr>)
               | Inr _ \<Rightarrow> (Inr (data, participantId rnd), w2))"
        using True s1 s2 Inr
        by (subst createNote_loop.simps) (simp split: sum.splits)
      show ?thesis
        using insert_user_result(2) [OF s2] u1 res
        by (auto split: sum.splits)
    next
      case (Inl e)
      show ?thesis
      proof (cases "e = unique_violation")
        case False
        have "createNote_loop attempts now rnd new_title hostPassword guestPassword w
              = (Inl (StoreError e), w1)"
          using True s1 Inl False
          by (subst createNote_loop.simps) (simp split: db_error.splits)
        then show ?thesis using u1 by simp
      next
        case uv: True
        have eq: "createNote_loop attempts now rnd new_title hostPassword guestPassword w
              = createNote_loop (attempts + 1) now rnd new_title hostPassword guestPassword w1"
          using True s1 Inl uv
          by (subst createNote_loop.simps) simp
        show ?thesis
          using "1.IH" [OF True s1 [symmetric] Inl uv] u1
          unfolding eq by simp
      qed
    qed
  qed
qed


lemma perform_keeps_host: "host_fields_kept (note_users w) (note_users (perform op w))"
proof (cases op)
  case (CreateNote now rnd new_title hostPassword guestPassword)
  then show ?thesis
    using createNote_loop_users [of 0 now rnd new_title hostPassword guestPassword w]
    by (auto simp: createNote_def kept_refl kept_append)
next
  case JoinNote
  then show ?thesis by (simp add: join_keeps_host)
next
  case UpdateUserEditPermission
  then show ?thesis by (simp add: toggle_keeps_host)
next
  case RespondToEditRequest
  then show ?thesis by (simp add: respond_keeps_host)
next
  case RequestEditPermission
  then show ?thesis by (simp add: request_keeps_host)
next
  case CleanupExpiredRequests
  then show ?thesis by (simp add: cleanup_keeps_host)
qed

lemma join_inserted_host:
  assumes j: "joinNote now gen_id noteId userId new_username Host w = (Inr r, w')"
    and app: "note_users w' = note_users w @ [r]"
  shows "role r = Host \<and> can_edit r \<and> permission_status r = Granted"
proof -
  let ?T = "\<lambda>r. note_id r = noteId \<and> user_id r = userId"
  let ?U = "\<lambda>r. r\<lparr>username := new_username, role := Host, joined_at := now\<rparr>"
  let ?row = "\<lparr>nu_id = gen_id, note_id = noteId, user_id = userId, username = new_username,
               role = Host, joined_at = now, can_edit = True, permission_status = Granted,
               permission_requested_at = None\<rparr>"
  obtain r1 w1 where s1: "select_user_single ?T w = (r1, w1)"
    by (cases "select_user_single ?T w")
  note u1 = select_user_single_result(1) [OF s1]
  show ?thesis
  proof (cases r1)
    case (Inl e)
    obtain r3 w3 where s3: "insert_user ?row w1 = (r3, w3)"
      by (cases "insert_user ?row w1")
    have "r3 = Inr r"
      using j by (auto simp: joinNote_def s1 s3 Inl split: sum.splits if_splits)
    then have "r = ?row"
      using insert_user_result(2) [OF s3] by auto
    then show ?thesis by simp
  next
    case (Inr existing)
    obtain r2 w2 where s2: "update_user_single (\<lambda>r. nu_id r = nu_id existing) ?U w1 = (r2, w2)"
      by (cases "update_user_single (\<lambda>r. nu_id r = nu_id existing) ?U w1")
    have "w' = w2"
      using j by (auto simp: joinNote_def s1 s2 Inr split: sum.splits if_splits)
    then have "length (note_users w') = length (note_users w)"
      using update_user_single_result [OF s2] u1 by auto
    then show ?thesis using app by simp
  qed
qed

text \<open>
  Claim C1, amended. Whatever the state and the arguments, none of \<open>createNote\<close>,
  \<open>joinNote\<close>, \<open>updateUserEditPermission\<close>, \<open>respondToEditRequest\<close>,
  \<open>requestEditPermission\<close> and \<open>cleanupExpiredRequests\<close> changes the edit flag or the
  status of a record whose role is host and whose status is granted or none; such a
  record keeps its place and its primary key. A record that \<open>joinNote\<close> inserts with the
  role host has the edit flag set and the status granted. The record that \<open>createNote\<close>
  inserts for the host has the role host and the edit flag set. (What \<open>createNote\<close>
  gives as the status is left out here, and so is the host record that \<open>joinNote\<close>
  makes out of a guest's record by changing its role.)
\<close>

theorem host_record_kept:
  "host_fields_kept (note_users w) (note_users (perform op w))
   \<and> (\<forall>r w'. joinNote now gen_id noteId userId new_username Host w = (Inr r, w')
              \<and> note_users w' = note_users w @ [r] \<longrightarrow>
            role r = Host \<and> can_edit r \<and> permission_status r = Granted)
   \<and> (\<forall>data pid w'. createNote created rnd new_title hostPassword guestPassword w = (Inr (data, pid), w') \<longrightarrow>
            note_users w' = note_users w
            \<or> (\<exists>row. note_users w' = note_users w @ [row] \<and> note_id row = n_id data
                  \<and> user_id row = pid \<and> role row = Host \<and> can_edit row))"
proof (intro conjI allI impI)
  show "host_fields_kept (note_users w) (note_users (perform op w))"
    by (rule perform_keeps_host)
next
  fix r w'
  assume "joinNote now gen_id noteId userId new_username Host w = (Inr r, w')
              \<and> note_users w' = note_users w @ [r]"
  then show "role r = Host" "can_edit r" "permission_status r = Granted"
    using join_inserted_host by blast+
next
  fix data pid w'
  assume c: "createNote created rnd new_title hostPassword guestPassword w = (Inr (data, pid), w')"
  show "note_users w' = note_users w
            \<or> (\<exists>row. note_users w' = note_users w @ [row] \<and> note_id row = n_id data
                  \<and> user_id row = pid \<and> role row = Host \<and> can_edit row)"
    using createNote_loop_users [of 0 created rnd new_title hostPassword guestPassword w] c
    by (auto simp: createNote_def)
qed

lemma created_world:
  "reached [CreateNote 0 example_rnd ''minutes'' ''1111'' ''2222'']
   = \<lparr>notes_tbl = [example_note],
      note_users = [\<lparr>nu_id = ''r1'', note_id = ''n1'', user_id = ''h'', username = host_username,
                     role = Host, joined_at = 0, can_edit = True, permission_status = NoneStatus,
                     permission_requested_at = None\<rparr>],
      faults = [], console = []\<rparr>"
  by (simp add: reached_def createNote_def createNote_loop.simps maxAttempts_def insert_note_def
        insert_user_def next_fault_def empty_world_def example_rnd_def example_note_def)

text \<open>
  Claim C1 as stated has every host record with the edit flag set and the status granted
  in every reachable state, and changed by no operation. Starting from the empty store:
  a note is created, a guest joins and asks for the edit permission, and joins again with
  the role host (the same user identifier, the host's password). The guest's record now
  has the role host, no edit flag and the status requested. When the creator then
  approves the request, both fields of that host record change.
\<close>

theorem host_invariant_counterexample:
  "map (\<lambda>r. (user_id r, role r, can_edit r, permission_status r))
     (note_users (reached
        [CreateNote 0 example_rnd ''minutes'' ''1111'' ''2222'',
         JoinNote 1 ''r2'' ''n1'' ''g'' ''lee'' Guest,
         RequestEditPermission 2 2 ''n1'' ''g'',
         JoinNote 3 ''r3'' ''n1'' ''g'' ''lee'' Host]))
     = [(''h'', Host, True, NoneStatus), (''g'', Host, False, Requested)]
   \<and> map (\<lambda>r. (user_id r, role r, can_edit r, permission_status r))
     (note_users (reached
        [CreateNote 0 example_rnd ''minutes'' ''1111'' ''2222'',
         JoinNote 1 ''r2'' ''n1'' ''g'' ''lee'' Guest,
         RequestEditPermission 2 2 ''n1'' ''g'',
         JoinNote 3 ''r3'' ''n1'' ''g'' ''lee'' Host,
         RespondToEditRequest ''n1'' ''g'' True ''h'']))
     = [(''h'', Host, True, NoneStatus), (''g'', Host, True, Granted)]"
proof -
  let ?h = "\<lparr>nu_id = ''r1'', note_id = ''n1'', user_id = ''h'', username = host_username,
             role = Host, joined_at = 0, can_edit = True, permission_status = NoneStatus,
             permission_requested_at = None\<rparr>"
  let ?g = "\<lparr>nu_id = ''r2'', note_id = ''n1'', user_id = ''g'', username = ''lee'',
             role = Guest, joined_at = 1, can_edit = False, permission_status = NoneStatus,
             permission_requested_at = None\<rparr>"
  let ?w1 = "\<lparr>notes_tbl = [example_note], note_users = [?h], faults = [], console = []\<rparr>"
  let ?w2 = "?w1\<lparr>note_users := [?h, ?g]\<rparr>"
  let ?w3 = "?w1\<lparr>note_users :=
      [?h, ?g\<lparr>permission_status := Requested, permission_requested_at := Some 2\<rparr>]\<rparr>"
  let ?w4 = "?w1\<lparr>note_users :=
      [?h, ?g\<lparr>permission_status := Requested, permission_requested_at := Some 2,
               role := Host, joined_at := 3\<rparr>]\<rparr>"
  let ?w5 = "?w1\<lparr>note_users :=
      [?h, ?g\<lparr>permission_status := Granted, permission_requested_at := Some 2,
               role := Host, joined_at := 3, can_edit := True\<rparr>]\<rparr>"
  have s1: "perform (CreateNote 0 example_rnd ''minutes'' ''1111'' ''2222'') empty_world = ?w1"
    using created_world by (simp add: reached_def)
  have s2: "perform (JoinNote 1 ''r2'' ''n1'' ''g'' ''lee'' Guest) ?w1 = ?w2"
    by (simp add: joinNote_def select_user_single_def insert_user_def next_fault_def single_def
          example_note_def)
  have s3: "perform (RequestEditPermission 2 2 ''n1'' ''g'') ?w2 = ?w3"
    by (simp add: requestEditPermission_def select_user_single_def update_user_single_def
          next_fault_def single_def)
  have s4: "perform (JoinNote 3 ''r3'' ''n1'' ''g'' ''lee'' Host) ?w3 = ?w4"
    by (simp add: joinNote_def select_user_single_def update_user_single_def next_fault_def
          single_def)
  have s5: "perform (RespondToEditRequest ''n1'' ''g'' True ''h'') ?w4 = ?w5"
    by (simp add: respondToEditRequest_def select_user_single_def update_user_single_def
          next_fault_def single_def)
  show ?thesis
    unfolding reached_def fold_simps s1 s2 s3 s4 s5 by simp
qed


theorem host_record_kept_witness:
  "can_edit (note_users (perform (RespondToEditRequest ''n1'' ''g'' True ''h'') pending_world) ! 0)
   \<and> permission_status
        (note_users (perform (RespondToEditRequest ''n1'' ''g'' True ''h'') pending_world) ! 0)
       = Granted
   \<and> permission_status
        \<lparr>nu_id = ''r3'', note_id = ''n1'', user_id = ''k'', username = ''park'', role = Host,
         joined_at = 7, can_edit = True, permission_status = Granted,
         permission_requested_at = None\<rparr> = Granted
   \<and> (\<exists>row. note_users (reached [CreateNote 0 example_rnd ''minutes'' ''1111'' ''2222''])
                = [row] \<and> role row = Host \<and> can_edit row)"
proof -
  let ?row = "\<lparr>nu_id = ''r3'', note_id = ''n1'', user_id = ''k'', username = ''park'', role = Host,
         joined_at = 7, can_edit = True, permission_status = Granted,
         permission_requested_at = None\<rparr>"
  let ?h = "\<lparr>nu_id = ''r1'', note_id = ''n1'', user_id = ''h'', username = host_username,
             role = Host, joined_at = 0, can_edit = True, permission_status = NoneStatus,
             permission_requested_at = None\<rparr>"
  note t = host_record_kept [where w = pending_world and op = "RespondToEditRequest ''n1'' ''g'' True ''h''"
      and now = 7 and gen_id = "''r3''" and noteId = "''n1''" and userId = "''k''"
      and new_username = "''park''" and created = 0 and rnd = example_rnd
      and new_title = "''minutes''" and hostPassword = "''1111''" and guestPassword = "''2222''"]
  note e = host_record_kept [where w = example_world and op = "RespondToEditRequest ''n1'' ''g'' True ''h''"
      and now = 7 and gen_id = "''r3''" and noteId = "''n1''" and userId = "''k''"
      and new_username = "''park''" and created = 0 and rnd = example_rnd
      and new_title = "''minutes''" and hostPassword = "''1111''" and guestPassword = "''2222''"]
  note c = host_record_kept [where w = empty_world and op = "RespondToEditRequest ''n1'' ''g'' True ''h''"
      and now = 7 and gen_id = "''r3''" and noteId = "''n1''" and userId = "''k''"
      and new_username = "''park''" and created = 0 and rnd = example_rnd
      and new_title = "''minutes''" and hostPassword = "''1111''" and guestPassword = "''2222''"]
  note kept = t [THEN conjunct1, unfolded host_fields_kept_def, THEN conjunct2, THEN spec, of 0]
  have j: "joinNote 7 ''r3'' ''n1'' ''k'' ''park'' Host example_world
             = (Inr ?row, example_world\<lparr>note_users := note_users example_world @ [?row]\<rparr>)
           \<and> note_users (example_world\<lparr>note_users := note_users example_world @ [?row]\<rparr>)
               = note_users example_world @ [?row]"
    by (simp add: joinNote_def select_user_single_def insert_user_def next_fault_def single_def
          example_world_def example_host_def example_guest_def example_note_def)
  have cr: "createNote 0 example_rnd ''minutes'' ''1111'' ''2222'' empty_world
            = (Inr (example_note, ''h''),
               \<lparr>notes_tbl = [example_note], note_users = [?h], faults = [], console = []\<rparr>)"
    by (simp add: createNote_def createNote_loop.simps maxAttempts_def insert_note_def
          insert_user_def next_fault_def empty_world_def example_rnd_def example_note_def)
  have first: "role (note_users pending_world ! 0) = Host
      \<and> permission_status (note_users pending_world ! 0) \<noteq> Requested
      \<and> permission_status (note_users pending_world ! 0) \<noteq> Denied"
    "0 < length (note_users pending_world)"
    "can_edit (note_users pending_world ! 0)"
    "permission_status (note_users pending_world ! 0) = Granted"
    by (simp_all add: pending_world_def example_host_def)
  have a: "can_edit (note_users (perform (RespondToEditRequest ''n1'' ''g'' True ''h'') pending_world) ! 0)
   \<and> permission_status
        (note_users (perform (RespondToEditRequest ''n1'' ''g'' True ''h'') pending_world) ! 0)
       = Granted"
    using kept first by simp
  have b: "permission_status ?row = Granted"
    using e [THEN conjunct2, THEN conjunct1, THEN spec, THEN spec, THEN mp, OF j] by simp
  have d: "\<exists>row. note_users (reached [CreateNote 0 example_rnd ''minutes'' ''1111'' ''2222''])
                = [row] \<and> role row = Host \<and> can_edit row"
    using c [THEN conjunct2, THEN conjunct2, THEN spec, THEN spec, THEN spec, THEN mp, OF cr] cr
    by (simp add: reached_def empty_world_def)
  show ?thesis
    using a b d by blast
qed

subsection \<open>Reachable states are well formed\<close>

text \<open>
  The conditions that the properties above assume of the store (it answers, primary keys
  are distinct, a session holds one record per participant) hold in every state that the
  six operations reach from the empty store, as long as no store call fails.
\<close>

lemma wf_users_map:
  assumes "well_formed w" "notes_tbl w' = notes_tbl w" "faults w' = []"
    and "note_users w' = map g (note_users w)"
    and "\<And>r. nu_id (g r) = nu_id r \<and> note_id (g r) = note_id r \<and> user_id (g r) = user_id r"
  shows "well_formed w'"
  using assms
  by (simp add: well_formed_def primary_keys_distinct_def one_row_per_participant_def comp_def)

lemma wf_amend:
  assumes "well_formed w"
    and "\<And>r. nu_id (U r) = nu_id r \<and> note_id (U r) = note_id r \<and> user_id (U r) = user_id r"
  shows "well_formed (w\<lparr>note_users := map (\<lambda>x. if P x then U x else x) (note_users w)\<rparr>)"
  by (rule wf_users_map [OF assms(1), where g = "\<lambda>x. if P x then U x else x"])
     (simp_all add: assms(2) assms(1) [unfolded well_formed_def])

lemma wf_users_append:
  assumes "well_formed w"
    and "nu_id row \<notin> set (map nu_id (note_users w))"
    and "note_id row \<in> set (map n_id (notes_tbl w))"
    and "(note_id row, user_id row) \<notin> set (map (\<lambda>r. (note_id r, user_id r)) (note_users w))"
  shows "well_formed (w\<lparr>note_users := note_users w @ [row]\<rparr>)"
  using assms
  by (simp add: well_formed_def primary_keys_distinct_def one_row_per_participant_def)

lemma toggle_wf:
  assumes "well_formed w"
  shows "well_formed (snd (updateUserEditPermission noteId targetUserId canEdit requesterId w))"
proof -
  have f: "faults w = []" using assms by (simp add: well_formed_def)
  have "snd (updateUserEditPermission noteId targetUserId canEdit requesterId w) = w
      \<or> snd (updateUserEditPermission noteId targetUserId canEdit requesterId w)
          = w\<lparr>note_users := map (\<lambda>x. if note_id x = noteId \<and> user_id x = targetUserId
                                      then x\<lparr>can_edit := canEdit\<rparr> else x) (note_users w)\<rparr>"
    using f
    by (simp add: updateUserEditPermission_def select_user_single_ok update_user_single_ok
          split: sum.splits)
  then show ?thesis
    using assms wf_amend [OF assms, of "\<lambda>r. r\<lparr>can_edit := canEdit\<rparr>"] by auto
qed

lemma request_wf:
  assumes "well_formed w"
  shows "well_formed (snd (requestEditPermission now stamp noteId userId w))"
proof -
  have f: "faults w = []" using assms by (simp add: well_formed_def)
  have "snd (requestEditPermission now stamp noteId userId w) = w
      \<or> snd (requestEditPermission now stamp noteId userId w)
          = w\<lparr>note_users := map (\<lambda>x. if note_id x = noteId \<and> user_id x = userId
               then x\<lparr>permission_status := Requested, permission_requested_at := Some stamp\<rparr>
               else x) (note_users w)\<rparr>"
    using f
    by (simp add: requestEditPermission_def select_user_single_ok update_user_single_ok Let_def
          split: sum.splits option.splits)
  then show ?thesis
    using assms wf_amend [OF assms,
        of "\<lambda>r. r\<lparr>permission_status := Requested, permission_requested_at := Some stamp\<rparr>"]
    by auto
qed

lemma respond_wf:
  assumes "well_formed w"
  shows "well_formed (snd (respondToEditRequest noteId targetUserId approved hostUserId w))"
proof -
  have f: "faults w = []" using assms by (simp add: well_formed_def)
  have "snd (respondToEditRequest noteId targetUserId approved hostUserId w) = w
      \<or> snd (respondToEditRequest noteId targetUserId approved hostUserId w)
          = w\<lparr>note_users := map (\<lambda>x. if note_id x = noteId \<and> user_id x = targetUserId
               then x\<lparr>can_edit := True, permission_status := Granted\<rparr>
               else x) (note_users w)\<rparr>
      \<or> snd (respondToEditRequest noteId targetUserId approved hostUserId w)
          = w\<lparr>note_users := map (\<lambda>x. if note_id x = noteId \<and> user_id x = targetUserId
               then x\<lparr>permission_status := Denied\<rparr>
               else x) (note_users w)\<rparr>"
    using f
    by (simp add: respondToEditRequest_def select_user_single_ok update_user_single_ok Let_def
          split: sum.splits)
  then show ?thesis
    using assms wf_amend [OF assms, of "\<lambda>r. r\<lparr>can_edit := True, permission_status := Granted\<rparr>"]
      wf_amend [OF assms, of "\<lambda>r. r\<lparr>permission_status := Denied\<rparr>"]
    by auto
qed

lemma cleanup_wf:
  assumes "well_formed w"
  shows "well_formed (snd (cleanupExpiredRequests now noteId w))"
proof -
  have f: "faults w = []" using assms by (simp add: well_formed_def)
  show ?thesis
  proof (cases "noteId = []")
    case True
    then show ?thesis using assms by (simp add: cleanupExpiredRequests_def)
  next
    case False
    show ?thesis
      unfolding cleanupExpiredRequests_def Let_def update_users_ok [OF f]
      using False wf_amend [OF assms,
          of "\<lambda>r. r\<lparr>permission_status := NoneStatus, permission_requested_at := None\<rparr>"]
      by simp
  qed
qed

lemma join_wf:
  assumes "well_formed w"
  shows "well_formed (snd (joinNote now gen_id noteId userId new_username new_role w))"
proof -
  have f: "faults w = []" and uniq: "one_row_per_participant w" and pk: "primary_keys_distinct w"
    using assms by (simp_all add: well_formed_def)
  show ?thesis
  proof (cases "noteId = [] \<or> userId = []")
    case True
    then show ?thesis using assms by (auto simp: joinNote_def)
  next
    case False
    then have ids: "noteId \<noteq> []" "userId \<noteq> []" by simp_all
    show ?thesis
    proof (cases "participant w noteId userId")
      case None
      let ?row = "\<lparr>nu_id = gen_id, note_id = noteId, user_id = userId, username = new_username,
                  role = new_role, joined_at = now, can_edit = (new_role = Host),
                  permission_status = (if new_role = Host then Granted else NoneStatus),
                  permission_requested_at = None\<rparr>"
      have key: "(noteId, userId) \<notin> set (map (\<lambda>r. (note_id r, user_id r)) (note_users w))"
        using None by (rule participant_None_key)
      have "snd (joinNote now gen_id noteId userId new_username new_role w) = w
          \<or> (gen_id \<notin> set (map nu_id (note_users w)) \<and> noteId \<in> set (map n_id (notes_tbl w))
              \<and> snd (joinNote now gen_id noteId userId new_username new_role w)
                  = w\<lparr>note_users := note_users w @ [?row]\<rparr>)"
        using ids f uniq None
        by (simp add: joinNote_def select_participant insert_user_def next_fault_none)
      then show ?thesis
        using assms wf_users_append [OF assms, of ?row] key by auto
    next
      case (Some e)
      show ?thesis
        using join_existing [OF ids f uniq pk Some, of now gen_id new_username new_role]
          wf_amend [OF assms, of "\<lambda>r. r\<lparr>username := new_username, role := new_role, joined_at := now\<rparr>"
            "\<lambda>r. note_id r = noteId \<and> user_id r = userId"]
        by (simp add: amend_participant_def)
    qed
  qed
qed


lemma wf_console: "well_formed (w\<lparr>console := c\<rparr>) = well_formed w"
  by (simp add: well_formed_def primary_keys_distinct_def one_row_per_participant_def)

lemma wf_note_append:
  assumes "well_formed w" "n_id note \<notin> set (map n_id (notes_tbl w))"
  shows "well_formed (w\<lparr>notes_tbl := notes_tbl w @ [note]\<rparr>)"
  using assms
  by (auto simp: well_formed_def primary_keys_distinct_def one_row_per_participant_def)

lemma createNote_loop_wf:
  "well_formed w \<Longrightarrow>
   well_formed (snd (createNote_loop attempts now rnd new_title hostPassword guestPassword w))"
proof (induction attempts now rnd new_title hostPassword guestPassword w
       rule: createNote_loop.induct)
  case (1 attempts now rnd new_title hostPassword guestPassword w)
  let ?note = "\<lparr>n_id = noteIds rnd attempts, note_code = noteCodes rnd attempts,
                 title = new_title, content = [], content_json = None,
                 host_password = hostPassword, guest_password = guestPassword,
                 is_locked = False, locked_by = None, created_at = now, last_modified = now\<rparr>"
  let ?row = "\<lparr>nu_id = hostRowId rnd, note_id = noteIds rnd attempts,
                user_id = participantId rnd,
                username = host_username, role = Host, joined_at = now, can_edit = True,
                permission_status = NoneStatus, permission_requested_at = None\<rparr>"
  have wf: "well_formed w" by fact
  then have f: "faults w = []" by (simp add: well_formed_def)
  show ?case
  proof (cases "attempts < maxAttempts")
    case False
    then show ?thesis using wf by (simp add: createNote_loop.simps)
  next
    case True
    show ?thesis
    proof (cases "n_id ?note \<in> set (map n_id (notes_tbl w))
                  \<or> note_code ?note \<in> set (map note_code (notes_tbl w))")
      case taken: True
      have ins: "insert_note ?note w = (Inl unique_violation, w)"
        using taken f by (simp add: insert_note_def next_fault_none)
      have eq: "createNote_loop attempts now rnd new_title hostPassword guestPassword w
              = createNote_loop (attempts + 1) now rnd new_title hostPassword guestPassword w"
        using True ins by (subst createNote_loop.simps) simp
      show ?thesis
        unfolding eq using "1.IH" [OF True ins [symmetric] refl refl wf] .
    next
      case free: False
      let ?w1 = "w\<lparr>notes_tbl := notes_tbl w @ [?note]\<rparr>"
      have ins: "insert_note ?note w = (Inr ?note, ?w1)"
        using free f by (simp add: insert_note_def next_fault_none)
      have wf1: "well_formed ?w1"
        using wf free by (intro wf_note_append) simp_all
      have nokey: "(note_id ?row, user_id ?row)
                     \<notin> set (map (\<lambda>r. (note_id r, user_id r)) (note_users ?w1))"
        using wf free by (auto simp: well_formed_def)
      have "snd (insert_user ?row ?w1) = ?w1
            \<or> (nu_id ?row \<notin> set (map nu_id (note_users ?w1))
                \<and> snd (insert_user ?row ?w1) = ?w1\<lparr>note_users := note_users ?w1 @ [?row]\<rparr>)"
        using f by (simp add: insert_user_def next_fault_none)
      then have wf2: "well_formed (snd (insert_user ?row ?w1))"
        using wf1 wf_users_append [OF wf1, of ?row] nokey by auto
      have res: "createNote_loop attempts now rnd new_title hostPassword guestPassword w
              = (case insert_user ?row ?w1 of
                   (Inl userError, w2) \<Rightarrow>
                     (Inr (?note, participantId rnd),
                      w2\<lparr>console := console w2 @ [HostRegistrationFailed userError]\<rparr>)
                 | (Inr _, w2) \<Rightarrow> (Inr (?note, participantId rnd), w2))"
        using True ins by (subst createNote_loop.simps) simp
      have "snd (createNote_loop attempts now rnd new_title hostPassword guestPassword w)
              = snd (insert_user ?row ?w1)
            \<or> (\<exists>c. snd (createNote_loop attempts now rnd new_title hostPassword guestPassword w)
              = (snd (insert_user ?row ?w1))\<lparr>console := c\<rparr>)"
        unfolding res by (auto split: prod.splits sum.splits)
      then show ?thesis
        using wf2 by (auto simp: wf_console)
    qed
  qed
qed

lemma perform_wf: "well_formed w \<Longrightarrow> well_formed (perform op w)"
  by (cases op)
     (simp_all add: createNote_def createNote_loop_wf join_wf toggle_wf respond_wf request_wf
        cleanup_wf)

lemma fold_perform_wf: "well_formed w \<Longrightarrow> well_formed (fold perform ops w)"
  by (induction ops arbitrary: w) (simp_all add: perform_wf)

lemma reached_well_formed: "well_formed (reached ops)"
  unfolding reached_def
  by (rule fold_perform_wf)
     (simp add: well_formed_def empty_world_def primary_keys_distinct_def
        one_row_per_participant_def)

end
